theory Spec2Isabelle
  imports Complex_Main "HOL-Library.List_Lexorder" "HOL-Library.Char_ord"
    "HOL-Library.Product_Lexorder"
begin

section \<open>The process environment: clock, network and the log of what was done\<close>

text \<open>
  The scripts talk to the outside world through three calls only: reading the monotonic
  clock, sleeping, and issuing one HTTP GET.  The environment is made explicit:
  \<^item> the network is a script \<open>net\<close>: the \<open>n\<close>-th request of the process (counted from 0),
    asking for \<open>q\<close>, ends as \<open>fst (net n q)\<close> after \<open>snd (net n q)\<close> seconds;
  \<^item> the clock is a fake clock: \<open>time.sleep d\<close> advances it by \<open>d\<close>, a request advances it
    by its duration, every other statement takes no time;
  \<^item> every sleep and every request is appended to a log, the sleeps tagged with the
    place of the source that slept.
  Seconds are exact rationals (the source computes with floats).
\<close>

datatype 'b reply =
    NetworkError              \<comment> \<open>the client library raised: no response at all\<close>
  | Response nat 'b           \<comment> \<open>status code and body\<close>

datatype site = Spacing | Backoff | Polite

datatype 'q event =
    Slept site rat            \<comment> \<open>\<open>time.sleep d\<close>, and which statement slept\<close>
  | Sent 'q rat rat           \<comment> \<open>a GET: what was asked, when it started, when it completed\<close>

type_synonym ('q, 'b) network = "nat \<Rightarrow> 'q \<Rightarrow> 'b reply \<times> rat"

record 'q world =
  clock :: rat
  served :: nat
  events :: "'q event list"

datatype av_error = NonJson | RateLimited nat | ApiError | Exhausted | MissingKey

datatype exn =
    RequestException
  | ValueError
  | KeyError
  | TypeError
  | AttributeError
  | AssertionError
  | RuntimeError
  | OSError
  | AlphaVantageError av_error

datatype 'a result = Returned 'a | ReturnedNone | Raised exn

definition sleep :: "site \<Rightarrow> rat \<Rightarrow> ('q, 'w) world_scheme \<Rightarrow> ('q, 'w) world_scheme" where
  "sleep s d w = w\<lparr>clock := clock w + d, events := events w @ [Slept s d]\<rparr>"

definition http_get ::
  "('q, 'b) network \<Rightarrow> 'q \<Rightarrow> ('q, 'w) world_scheme \<Rightarrow> 'b reply \<times> ('q, 'w) world_scheme" where
  "http_get net q w =
     (let (r, took) = net (served w) q;
          start = clock w
      in (r, w\<lparr>clock := start + took, served := Suc (served w),
               events := events w @ [Sent q start (start + took)]\<rparr>))"

fun sleeps :: "site \<Rightarrow> 'q event list \<Rightarrow> rat list" where
  "sleeps s [] = []"
| "sleeps s (Slept s' d # es) = (if s' = s then d # sleeps s es else sleeps s es)"
| "sleeps s (Sent q a b # es) = sleeps s es"

fun sent :: "'q event list \<Rightarrow> ('q \<times> rat \<times> rat) list" where
  "sent [] = []"
| "sent (Slept s d # es) = sent es"
| "sent (Sent q a b # es) = (q, a, b) # sent es"

text \<open>
  The time between the completion of each request and the start of the next one.
\<close>

fun gaps :: "('q \<times> rat \<times> rat) list \<Rightarrow> rat list" where
  "gaps ((q, a, b) # (q', c, d) # rs) = (c - b) # gaps ((q', c, d) # rs)"
| "gaps rs = []"


section \<open>JSON values as Python sees them\<close>

datatype json =
    JNull
  | JBool bool
  | JInt int
  | JFloat rat
  | JStr string
  | JArr "json list"
  | JObj "(string \<times> json) list"

text \<open>Python's truth value of a decoded JSON value, and of the result of \<open>dict.get\<close>.\<close>

fun truthy :: "json \<Rightarrow> bool" where
  "truthy JNull = False"
| "truthy (JBool b) = b"
| "truthy (JInt n) = (n \<noteq> 0)"
| "truthy (JFloat x) = (x \<noteq> 0)"
| "truthy (JStr s) = (s \<noteq> [])"
| "truthy (JArr xs) = (xs \<noteq> [])"
| "truthy (JObj kvs) = (kvs \<noteq> [])"

text \<open>\<open>d.get(k)\<close>: \<open>None\<close> for a missing key; a JSON \<open>null\<close> is Python's \<open>None\<close> too.\<close>

definition dict_get :: "(string \<times> json) list \<Rightarrow> string \<Rightarrow> json option" where
  "dict_get kvs k = (case map_of kvs k of Some JNull \<Rightarrow> None | r \<Rightarrow> r)"

definition truthy_opt :: "json option \<Rightarrow> bool" where
  "truthy_opt v = (case v of None \<Rightarrow> False | Some j \<Rightarrow> truthy j)"

text \<open>\<open>a or b\<close>.\<close>

definition py_or :: "json option \<Rightarrow> json option \<Rightarrow> json option" where
  "py_or a b = (if truthy_opt a then a else b)"


section \<open>Seeking Alpha: \<open>_rate_limited_get\<close>\<close>

text \<open>
  \<open>MIN_SECONDS_BETWEEN_REQUESTS\<close>, \<open>MAX_RETRIES\<close> and \<open>BACKOFF_FACTOR\<close> are module constants
  (2.0, 3 and 2.0); \<open>_LAST_REQUEST_TIME\<close> is the module's global marker.  The user agent
  drawn at random for each attempt has no effect on the control flow and is left out.
\<close>

record config =
  MIN_SECONDS_BETWEEN_REQUESTS :: rat
  MAX_RETRIES :: nat
  BACKOFF_FACTOR :: rat

record 'q sa_state = "'q world" +
  LAST_REQUEST_TIME :: rat

definition sa_config :: config where
  "sa_config = \<lparr>MIN_SECONDS_BETWEEN_REQUESTS = 2, MAX_RETRIES = 3, BACKOFF_FACTOR = 2\<rparr>"

text \<open>
  \<open>resp.raise_for_status()\<close> of the requests library raises \<open>HTTPError\<close> (a
  \<open>RequestException\<close>) for the status codes 400 to 599 and for no other.
\<close>

definition raise_for_status :: "nat \<Rightarrow> bool" where
  "raise_for_status status \<longleftrightarrow> 400 \<le> status \<and> status < 600"

text \<open>
  One pass through the body of the \<open>for\<close> loop up to the end of the \<open>try\<close> block: wait out
  the spacing, issue the request, and on success set the marker.
  \<open>Inr resp\<close> is the \<open>return resp\<close>, \<open>Inl ()\<close> the jump to the \<open>except\<close> clause.
\<close>

definition attempt_get ::
  "config \<Rightarrow> ('q, 'b) network \<Rightarrow> 'q \<Rightarrow> 'q sa_state \<Rightarrow> (unit + nat \<times> 'b) \<times> 'q sa_state" where
  "attempt_get cfg net q w =
     (let now = clock w;
          wait_for = MIN_SECONDS_BETWEEN_REQUESTS cfg - (now - LAST_REQUEST_TIME w);
          w1 = (if wait_for > 0 then sleep Spacing wait_for w else w);
          (r, w2) = http_get net q w1
      in case r of
           NetworkError \<Rightarrow> (Inl (), w2)
         | Response status body \<Rightarrow>
             if raise_for_status status then (Inl (), w2)
             else (Inr (status, body), w2\<lparr>LAST_REQUEST_TIME := clock w2\<rparr>))"

text \<open>
  The loop \<open>for attempt in range(1, MAX_RETRIES + 1)\<close>.  Falling out of the loop (only
  when \<open>MAX_RETRIES\<close> is 0) returns \<open>None\<close>; a negative backoff makes \<open>time.sleep\<close> raise
  \<open>ValueError\<close>.
\<close>

function rate_limited_loop ::
  "config \<Rightarrow> ('q, 'b) network \<Rightarrow> 'q \<Rightarrow> nat \<Rightarrow> 'q sa_state \<Rightarrow> (nat \<times> 'b) result \<times> 'q sa_state" where
  "rate_limited_loop cfg net q attempt w =
     (if attempt > MAX_RETRIES cfg then (ReturnedNone, w)
      else case attempt_get cfg net q w of
             (Inr resp, w') \<Rightarrow> (Returned resp, w')
           | (Inl _, w') \<Rightarrow>
               if attempt = MAX_RETRIES cfg then (Raised RequestException, w')
               else let backoff_seconds = BACKOFF_FACTOR cfg * 2 ^ (attempt - 1)
                    in if backoff_seconds < 0 then (Raised ValueError, w')
                       else rate_limited_loop cfg net q (Suc attempt)
                              (sleep Backoff backoff_seconds w'))"
  by pat_completeness auto
termination
  by (relation "measure (\<lambda>(cfg, net, q, attempt, w). Suc (MAX_RETRIES cfg) - attempt)") auto

declare rate_limited_loop.simps [simp del]

definition rate_limited_get ::
  "config \<Rightarrow> ('q, 'b) network \<Rightarrow> 'q \<Rightarrow> 'q sa_state \<Rightarrow> (nat \<times> 'b) result \<times> 'q sa_state" where
  "rate_limited_get cfg net q w = rate_limited_loop cfg net q 1 w"


section \<open>Seeking Alpha: \<open>list_earnings_call_transcripts_for_ticker\<close>\<close>

text \<open>
  A listing page as BeautifulSoup hands it over: the \<open>article\<close> elements, each with the text
  of its \<open>h3\<close> (if it has one), the \<open>href\<close> of its first link (if it has a link with that
  attribute) and the text of its first \<open>span\<close> (if it has one).  A request is the URL and
  the \<open>page\<close> parameter.  \<open>START_DATE\<close> and \<open>END_DATE\<close> are module constants, datetimes
  without a time zone.  \<open>pd.to_datetime\<close> is a parameter \<open>to_datetime\<close>: it raises
  (\<open>None\<close>), or it yields \<open>NaT\<close> (as it does for the empty text), a timestamp without a
  time zone (\<open>Naive\<close>), or a timestamp with one (\<open>Aware\<close>).  Every comparison with \<open>NaT\<close>
  is false, and comparing a timestamp that has a time zone with \<open>START_DATE\<close> raises
  \<open>TypeError\<close>.
\<close>

datatype 'd parsed = NaT | Naive 'd | Aware

record article =
  h3 :: "string option"
  href :: "string option"
  span :: "string option"

text \<open>A row of the result; the fields carry the prefix \<open>t_\<close>.\<close>

record 'd transcript =
  t_ticker :: string
  t_title :: string
  t_url :: string
  t_date :: 'd

type_synonym page_request = "string \<times> nat option"

fun starts_with :: "string \<Rightarrow> string \<Rightarrow> bool" where
  "starts_with [] s = True"
| "starts_with (c # cs) [] = False"
| "starts_with (c # cs) (d # ds) = (c = d \<and> starts_with cs ds)"

text \<open>\<open>needle in s\<close> on Python strings.\<close>

fun contains :: "string \<Rightarrow> string \<Rightarrow> bool" where
  "contains needle [] = (needle = [])"
| "contains needle (c # cs) = (starts_with needle (c # cs) \<or> contains needle cs)"

definition BASE_LIST_URL :: "string \<Rightarrow> string" where
  "BASE_LIST_URL tk = ''https://seekingalpha.com/symbol/'' @ tk @ ''/earnings/transcripts''"

text \<open>\<open>a < b\<close> on what \<open>to_pydatetime\<close> returned for two results that have no time zone.\<close>

fun before :: "'d::linorder parsed \<Rightarrow> 'd parsed \<Rightarrow> bool" where
  "before (Naive a) (Naive b) = (a < b)"
| "before a b = False"

text \<open>
  The body of the inner loop \<open>for art in articles\<close>, on the triple
  (\<open>page_had_any_in_range\<close>, \<open>oldest_on_page\<close>, \<open>records\<close>); each \<open>continue\<close> leaves the
  triple as it is, and the \<open>TypeError\<close> of a comparison leaves the function.
\<close>

definition scan_article ::
  "'d::linorder \<Rightarrow> 'd \<Rightarrow> (string \<Rightarrow> 'd parsed option) \<Rightarrow> string \<Rightarrow> article
     \<Rightarrow> bool \<times> 'd parsed option \<times> 'd transcript list
     \<Rightarrow> exn + bool \<times> 'd parsed option \<times> 'd transcript list" where
  "scan_article START_DATE END_DATE to_datetime tk art acc =
     (case acc of (page_had_any_in_range, oldest_on_page, records) \<Rightarrow>
        (case h3 art of
           None \<Rightarrow> Inr acc
         | Some ttl \<Rightarrow>
             if \<not> contains ''Earnings Call Transcript'' ttl then Inr acc
             else (case href art of
                     None \<Rightarrow> Inr acc
                   | Some hr \<Rightarrow>
                       if hr = [] then Inr acc
                       else let date_text = (case span art of Some s \<Rightarrow> s | None \<Rightarrow> [])
                            in (case to_datetime date_text of
                                  None \<Rightarrow> Inr acc
                                | Some Aware \<Rightarrow> Inl TypeError
                                | Some d \<Rightarrow>
                                    let oldest = (case oldest_on_page of
                                                    None \<Rightarrow> Some d
                                                  | Some old \<Rightarrow> if before d old then Some d else Some old)
                                    in (case d of
                                          Naive t \<Rightarrow>
                                            if START_DATE \<le> t \<and> t \<le> END_DATE
                                            then Inr (True, oldest,
                                                   records @ [\<lparr>t_ticker = tk, t_title = ttl, t_url = hr, t_date = t\<rparr>])
                                            else Inr (page_had_any_in_range, oldest, records)
                                        | _ \<Rightarrow> Inr (page_had_any_in_range, oldest, records))))))"

fun scan_articles ::
  "'d::linorder \<Rightarrow> 'd \<Rightarrow> (string \<Rightarrow> 'd parsed option) \<Rightarrow> string \<Rightarrow> article list
     \<Rightarrow> bool \<times> 'd parsed option \<times> 'd transcript list
     \<Rightarrow> exn + bool \<times> 'd parsed option \<times> 'd transcript list" where
  "scan_articles START_DATE END_DATE to_datetime tk [] acc = Inr acc"
| "scan_articles START_DATE END_DATE to_datetime tk (art # arts) acc =
     (case scan_article START_DATE END_DATE to_datetime tk art acc of
        Inl e \<Rightarrow> Inl e
      | Inr acc' \<Rightarrow> scan_articles START_DATE END_DATE to_datetime tk arts acc')"

definition scan_page ::
  "'d::linorder \<Rightarrow> 'd \<Rightarrow> (string \<Rightarrow> 'd parsed option) \<Rightarrow> string \<Rightarrow> article list
     \<Rightarrow> 'd transcript list \<Rightarrow> exn + bool \<times> 'd parsed option \<times> 'd transcript list" where
  "scan_page START_DATE END_DATE to_datetime tk articles records =
     scan_articles START_DATE END_DATE to_datetime tk articles (False, None, records)"

text \<open>
  The loop \<open>for page in range(1, max_pages + 1)\<close>.  An exception of \<open>_get_soup\<close> leaves the
  function.  (\<open>_rate_limited_get\<close> returns \<open>None\<close> only when \<open>MAX_RETRIES\<close> is 0; then
  \<open>resp.text\<close> raises \<open>AttributeError\<close>.)  The test after the inner loop is
  \<open>oldest_on_page is not None and oldest_on_page < START_DATE and not page_had_any_in_range\<close>.
\<close>

function crawl_pages ::
  "config \<Rightarrow> 'd::linorder \<Rightarrow> 'd \<Rightarrow> (string \<Rightarrow> 'd parsed option) \<Rightarrow> (page_request, article list) network
     \<Rightarrow> string \<Rightarrow> nat \<Rightarrow> nat \<Rightarrow> 'd transcript list \<Rightarrow> page_request sa_state
     \<Rightarrow> 'd transcript list result \<times> page_request sa_state" where
  "crawl_pages cfg START_DATE END_DATE to_datetime net tk max_pages page records w =
     (if page > max_pages then (Returned records, w)
      else let params = (if page > 1 then Some page else None)
           in case rate_limited_get cfg net (BASE_LIST_URL tk, params) w of
                (Raised e, w') \<Rightarrow> (Raised e, w')
              | (ReturnedNone, w') \<Rightarrow> (Raised AttributeError, w')
              | (Returned (status, articles), w') \<Rightarrow>
                  if articles = [] then (Returned records, w')
                  else (case scan_page START_DATE END_DATE to_datetime tk articles records of
                          Inl e \<Rightarrow> (Raised e, w')
                        | Inr (page_had_any_in_range, oldest_on_page, records') \<Rightarrow>
                            if oldest_on_page \<noteq> None \<and> before (the oldest_on_page) (Naive START_DATE)
                               \<and> \<not> page_had_any_in_range
                            then (Returned records', w')
                            else crawl_pages cfg START_DATE END_DATE to_datetime net tk max_pages
                                   (Suc page) records' (sleep Polite 1 w')))"
  by pat_completeness auto
termination
  by (relation "measure (\<lambda>(cfg, s, e, td, net, tk, max_pages, page, records, w). Suc max_pages - page)")
     auto

declare crawl_pages.simps [simp del]

definition list_earnings_call_transcripts_for_ticker ::
  "config \<Rightarrow> 'd::linorder \<Rightarrow> 'd \<Rightarrow> (string \<Rightarrow> 'd parsed option) \<Rightarrow> (page_request, article list) network
     \<Rightarrow> string \<Rightarrow> nat \<Rightarrow> page_request sa_state
     \<Rightarrow> 'd transcript list result \<times> page_request sa_state" where
  "list_earnings_call_transcripts_for_ticker cfg START_DATE END_DATE to_datetime net tk max_pages w =
     crawl_pages cfg START_DATE END_DATE to_datetime net tk max_pages 1 [] w"


section \<open>Alpha Vantage: \<open>_request_with_retries\<close>\<close>

text \<open>
  The same helper stands in the OHLCV and in the macro script.  The body of a response is
  \<open>None\<close> when \<open>response.json()\<close> raises \<open>ValueError\<close>, and the decoded value otherwise.
  \<open>requests.get\<close> stands outside every \<open>try\<close>: what it raises leaves the helper.  The
  status code is never looked at.
\<close>

definition throttled :: "(string \<times> json) list \<Rightarrow> bool" where
  "throttled payload \<longleftrightarrow>
     truthy_opt (py_or (dict_get payload ''Note'') (dict_get payload ''Information''))"

function request_loop ::
  "nat \<Rightarrow> ('q, json option) network \<Rightarrow> 'q \<Rightarrow> nat \<Rightarrow> rat \<Rightarrow> 'q world
     \<Rightarrow> (string \<times> json) list result \<times> 'q world" where
  "request_loop max_retries net params attempt backoff_seconds w =
     (if attempt > max_retries then (Raised (AlphaVantageError Exhausted), w)
      else case http_get net params w of
             (NetworkError, w') \<Rightarrow> (Raised RequestException, w')
           | (Response status None, w') \<Rightarrow> (Raised (AlphaVantageError NonJson), w')
           | (Response status (Some (JObj payload)), w') \<Rightarrow>
               if throttled payload then
                 if attempt = max_retries then (Raised (AlphaVantageError (RateLimited attempt)), w')
                 else request_loop max_retries net params (Suc attempt)
                        (min (backoff_seconds * 2) 120) (sleep Backoff backoff_seconds w')
               else if ''Error Message'' \<in> fst ` set payload then (Raised (AlphaVantageError ApiError), w')
               else (Returned payload, w')
           | (Response status (Some _), w') \<Rightarrow> (Raised AttributeError, w'))"
  by pat_completeness auto
termination
  by (relation "measure (\<lambda>(m, net, params, attempt, b, w). Suc m - attempt)") auto

declare request_loop.simps [simp del]

definition request_with_retries ::
  "('q, json option) network \<Rightarrow> 'q \<Rightarrow> nat \<Rightarrow> 'q world \<Rightarrow> (string \<times> json) list result \<times> 'q world" where
  "request_with_retries net params max_retries w = request_loop max_retries net params 1 15 w"


section \<open>Fear and Greed: \<open>_http_get_json\<close>\<close>

text \<open>
  What one pass through the \<open>try\<close> block of the helper meets, as a reply of the network:
  \<^item> \<open>NetworkError\<close>: \<open>urlopen\<close> or \<open>read\<close> raises \<open>HTTPError\<close>, \<open>URLError\<close> or
    \<open>TimeoutError\<close> (\<open>urlopen\<close> raises \<open>HTTPError\<close> itself for an error status);
  \<^item> \<open>Response status (Lost e)\<close>: the request was sent and reading the status line raises
    \<open>e\<close>, which \<open>urlopen\<close> lets through as it is (\<open>RemoteDisconnected\<close>,
    \<open>ConnectionResetError\<close>, \<open>BadStatusLine\<close>); no status is seen;
  \<^item> \<open>Response status (Unread e)\<close>: the status came, and \<open>resp.read()\<close> or \<open>raw.decode\<close>
    raises \<open>e\<close> (\<open>IncompleteRead\<close>, \<open>UnicodeDecodeError\<close>);
  \<^item> \<open>Response status (Text None)\<close>: the body is text that is not JSON, \<open>json.loads\<close>
    raises \<open>JSONDecodeError\<close>;
  \<^item> \<open>Response status (Text (Some j))\<close>: the body decodes to \<open>j\<close>.

  The \<open>except\<close> clause names \<open>HTTPError\<close>, \<open>URLError\<close>, \<open>TimeoutError\<close> and
  \<open>JSONDecodeError\<close>; the helper turns a status other than 200 into an \<open>HTTPError\<close> before
  it reads the body.  \<open>try_once\<close> is the \<open>try\<close> block: it returns a value, raises into the
  \<open>except\<close> clause, or raises past it.  \<open>last_err\<close> records whether an error has been
  caught; the \<open>assert\<close> after the loop fails when none has.
\<close>

datatype url_body = Lost exn | Unread exn | Text "json option"

datatype 'a tried = Caught | Escaped exn | Got 'a

definition try_once :: "url_body reply \<Rightarrow> json tried" where
  "try_once r =
     (case r of
        NetworkError \<Rightarrow> Caught
      | Response status body \<Rightarrow>
          (case body of
             Lost e \<Rightarrow> Escaped e
           | Unread e \<Rightarrow> if status \<noteq> 200 then Caught else Escaped e
           | Text t \<Rightarrow>
               if status \<noteq> 200 then Caught
               else (case t of None \<Rightarrow> Caught | Some j \<Rightarrow> Got j)))"

function http_get_json_loop ::
  "('q, url_body) network \<Rightarrow> 'q \<Rightarrow> nat \<Rightarrow> rat \<Rightarrow> nat \<Rightarrow> bool \<Rightarrow> 'q world
     \<Rightarrow> json result \<times> 'q world" where
  "http_get_json_loop net url retries backoff attempt last_err w =
     (if attempt \<ge> retries
      then (Raised (if last_err then RuntimeError else AssertionError), w)
      else case http_get net url w of
             (r, w') \<Rightarrow>
               (case try_once r of
                  Got j \<Rightarrow> (Returned j, w')
                | Escaped e \<Rightarrow> (Raised e, w')
                | Caught \<Rightarrow>
                    if Suc attempt < retries then
                      let sleep_seconds = backoff ^ attempt
                      in if sleep_seconds < 0 then (Raised ValueError, w')
                         else http_get_json_loop net url retries backoff (Suc attempt) True
                                (sleep Backoff sleep_seconds w')
                    else (Raised RuntimeError, w')))"
  by pat_completeness auto
termination
  by (relation "measure (\<lambda>(net, url, retries, backoff, attempt, e, w). retries - attempt)") auto

declare http_get_json_loop.simps [simp del]

definition http_get_json ::
  "('q, url_body) network \<Rightarrow> 'q \<Rightarrow> nat \<Rightarrow> rat \<Rightarrow> 'q world \<Rightarrow> json result \<times> 'q world" where
  "http_get_json net url retries backoff w = http_get_json_loop net url retries backoff 0 False w"


section \<open>X: \<open>tweets.py\<close>\<close>

text \<open>
  The script asks the API two things: the account of a screen name, and a page of the
  tweets of an account from a cursor (\<open>None\<close> is the \<open>cursor=null\<close> of the first page).
  \<open>http.client\<close> raises for a failure of the connection only (\<open>OSError\<close>), never for a
  status, and \<open>json.loads\<close> raises \<open>ValueError\<close> for a body that is not JSON.
\<close>

datatype x_request = UserByScreenName string | UserTweets json "json option"

definition fetch_json ::
  "(x_request, json option) network \<Rightarrow> x_request \<Rightarrow> x_request world \<Rightarrow> (exn + json) \<times> x_request world" where
  "fetch_json net q w =
     (case http_get net q w of
        (NetworkError, w') \<Rightarrow> (Inl OSError, w')
      | (Response status None, w') \<Rightarrow> (Inl ValueError, w')
      | (Response status (Some j), w') \<Rightarrow> (Inr j, w'))"

definition get_user_tweets_page ::
  "(x_request, json option) network \<Rightarrow> json \<Rightarrow> json option \<Rightarrow> x_request world
     \<Rightarrow> (exn + json) \<times> x_request world" where
  "get_user_tweets_page net user_id cursor w =
     fetch_json net (UserTweets user_id (if truthy_opt cursor then cursor else None)) w"

text \<open>\<open>obj[key]\<close> on a decoded JSON value, and what \<open>list.extend\<close> takes from one.\<close>

definition subscript :: "json \<Rightarrow> string \<Rightarrow> exn + json" where
  "subscript obj k =
     (case obj of
        JObj kvs \<Rightarrow> (case map_of kvs k of None \<Rightarrow> Inl KeyError | Some v \<Rightarrow> Inr v)
      | _ \<Rightarrow> Inl TypeError)"

fun py_iter :: "json \<Rightarrow> json list option" where
  "py_iter (JArr xs) = Some xs"
| "py_iter (JStr s) = Some (map (\<lambda>c. JStr [c]) s)"
| "py_iter (JObj kvs) = Some (map (\<lambda>kv. JStr (fst kv)) kvs)"
| "py_iter _ = None"

text \<open>
  The loop of \<open>fetch_user_tweets\<close>.  Every exception raised in the \<open>try\<close> block (by the
  request, by the decoding, by \<open>response.get\<close> on a value that is not an object, by
  \<open>extend\<close> on a value that cannot be iterated) ends the loop; after the loop the function
  returns what it has accumulated.
\<close>

function fetch_pages ::
  "(x_request, json option) network \<Rightarrow> json \<Rightarrow> nat \<Rightarrow> nat \<Rightarrow> json option \<Rightarrow> json list
     \<Rightarrow> x_request world \<Rightarrow> json list result \<times> x_request world" where
  "fetch_pages net user_id max_pages page cursor all_tweets w =
     (if page > max_pages then (Returned all_tweets, w)
      else case get_user_tweets_page net user_id cursor w of
             (Inl e, w') \<Rightarrow> (Returned all_tweets, w')
           | (Inr (JObj response), w') \<Rightarrow>
               (case py_iter (case map_of response ''tweets'' of None \<Rightarrow> JArr [] | Some v \<Rightarrow> v) of
                  None \<Rightarrow> (Returned all_tweets, w')
                | Some tweets \<Rightarrow>
                    let all_tweets' = all_tweets @ tweets;
                        next_cursor = dict_get response ''next_cursor_str''
                    in if \<not> truthy_opt next_cursor then (Returned all_tweets', w')
                       else fetch_pages net user_id max_pages (Suc page) next_cursor all_tweets'
                              (sleep Polite (3 / 10) w'))
           | (Inr _, w') \<Rightarrow> (Returned all_tweets, w'))"
  by pat_completeness auto
termination
  by (relation "measure (\<lambda>(net, user_id, max_pages, page, cursor, all_tweets, w). Suc max_pages - page)")
     auto

declare fetch_pages.simps [simp del]

definition fetch_user_tweets ::
  "(x_request, json option) network \<Rightarrow> json \<Rightarrow> nat \<Rightarrow> x_request world
     \<Rightarrow> json list result \<times> x_request world" where
  "fetch_user_tweets net user_id max_pages w = fetch_pages net user_id max_pages 1 None [] w"

text \<open>
  \<open>get_user_rest_id\<close> returns \<open>None\<close> for every exception; \<open>save_tweets\<close> returns whether
  the file could be written, which the environment \<open>disk\<close> decides for each user name.
\<close>

definition get_user_rest_id ::
  "(x_request, json option) network \<Rightarrow> string \<Rightarrow> x_request world \<Rightarrow> json option \<times> x_request world" where
  "get_user_rest_id net user_name w =
     (case fetch_json net (UserByScreenName user_name) w of
        (Inl e, w') \<Rightarrow> (None, w')
      | (Inr json_data, w') \<Rightarrow>
          (case subscript json_data ''data'' of
             Inl e \<Rightarrow> (None, w')
           | Inr d \<Rightarrow>
               (case subscript d ''user'' of
                  Inl e \<Rightarrow> (None, w')
                | Inr u \<Rightarrow>
                    (case subscript u ''result'' of
                       Inl e \<Rightarrow> (None, w')
                     | Inr r \<Rightarrow>
                         (case subscript r ''rest_id'' of
                            Inl e \<Rightarrow> (None, w')
                          | Inr JNull \<Rightarrow> (None, w')
                          | Inr rest_id \<Rightarrow> (Some rest_id, w'))))))"

definition save_tweets :: "(string \<Rightarrow> bool) \<Rightarrow> string \<Rightarrow> json list \<Rightarrow> bool" where
  "save_tweets disk user_name tweets = disk user_name"

definition process_single_user ::
  "(x_request, json option) network \<Rightarrow> (string \<Rightarrow> bool) \<Rightarrow> string \<Rightarrow> nat \<Rightarrow> x_request world
     \<Rightarrow> bool \<times> x_request world" where
  "process_single_user net disk user_name max_pages w =
     (case get_user_rest_id net user_name w of
        (None, w1) \<Rightarrow> (False, w1)
      | (Some user_id, w1) \<Rightarrow>
          if \<not> truthy user_id then (False, w1)
          else (case fetch_user_tweets net user_id max_pages w1 of
                  (Returned tweets, w2) \<Rightarrow>
                    if tweets = [] then (False, w2) else (save_tweets disk user_name tweets, w2)
                | (ReturnedNone, w2) \<Rightarrow> (False, w2)
                | (Raised e, w2) \<Rightarrow> (False, w2)))"

text \<open>
  \<open>batch_fetch_tweets_sequential\<close> returns nothing; what it surfaces is the last log line
  with \<open>success_count\<close> and \<open>fail_count\<close>, which the model returns.
\<close>

fun batch_loop ::
  "(x_request, json option) network \<Rightarrow> (string \<Rightarrow> bool) \<Rightarrow> nat \<Rightarrow> string list \<Rightarrow> nat \<times> nat
     \<Rightarrow> x_request world \<Rightarrow> (nat \<times> nat) \<times> x_request world" where
  "batch_loop net disk max_pages [] counts w = (counts, w)"
| "batch_loop net disk max_pages (user # users) (success_count, fail_count) w =
     (case process_single_user net disk user max_pages w of
        (True, w') \<Rightarrow> batch_loop net disk max_pages users (success_count + 1, fail_count) w'
      | (False, w') \<Rightarrow> batch_loop net disk max_pages users (success_count, fail_count + 1) w')"

definition batch_fetch_tweets_sequential ::
  "(x_request, json option) network \<Rightarrow> (string \<Rightarrow> bool) \<Rightarrow> string list \<Rightarrow> nat \<Rightarrow> x_request world
     \<Rightarrow> (nat \<times> nat) \<times> x_request world" where
  "batch_fetch_tweets_sequential net disk user_list max_pages w =
     batch_loop net disk max_pages user_list (0, 0) w"


section \<open>Alpha Vantage earnings: \<open>main\<close>\<close>

text \<open>
  The body of the \<open>try\<close> block of \<open>main\<close> (fetching and writing the earnings and the
  estimates of one symbol) is a parameter \<open>work\<close>: on a symbol and a world it either
  completes (\<open>None\<close>) or raises.  The model returns the exit code, the symbols for which
  ``Failed for ...'' was printed, and the symbols whose work was started, in order.
  \<open>SYMBOLS\<close> is a module constant.
\<close>

record run =
  exit_code :: int
  failed :: "string list"
  started :: "string list"

fun main_loop ::
  "(string \<Rightarrow> 'q world \<Rightarrow> exn option \<times> 'q world) \<Rightarrow> string list \<Rightarrow> bool \<Rightarrow> string list \<Rightarrow> string list
     \<Rightarrow> 'q world \<Rightarrow> (bool \<times> string list \<times> string list) \<times> 'q world" where
  "main_loop work [] all_ok fl st w = ((all_ok, fl, st), w)"
| "main_loop work (symbol # rest) all_ok fl st w =
     (case work symbol w of
        (None, w') \<Rightarrow>
          main_loop work rest all_ok fl (st @ [symbol])
            (if rest \<noteq> [] then sleep Polite 12 w' else w')
      | (Some exc, w') \<Rightarrow>
          main_loop work rest False (fl @ [symbol]) (st @ [symbol])
            (if rest \<noteq> [] then sleep Polite 12 w' else w'))"

definition main :: "(string \<Rightarrow> 'q world \<Rightarrow> exn option \<times> 'q world) \<Rightarrow> string list \<Rightarrow> 'q world \<Rightarrow> run \<times> 'q world" where
  "main work SYMBOLS w =
     (case main_loop work SYMBOLS True [] [] w of
        ((all_ok, fl, st), w') \<Rightarrow>
          (\<lparr>exit_code = (if all_ok then 0 else 1), failed = fl, started = st\<rparr>, w'))"


section \<open>Alpha Vantage: \<open>fetch_stock_daily\<close> and \<open>fetch_indicator\<close>\<close>

text \<open>
  \<open>START_DATE\<close> and \<open>END_DATE\<close> are module constants.  Two functions of the Python
  library are parameters: \<open>dt.date.fromisoformat\<close>, which yields a date of a linearly
  ordered type or raises \<open>ValueError\<close> (\<open>None\<close>), and \<open>float\<close>, which yields a float of an
  abstract type or raises.  The fields of the rows carry the prefixes \<open>o_\<close> and \<open>m_\<close>.
\<close>

definition try_bind :: "exn + 'a \<Rightarrow> ('a \<Rightarrow> exn + 'b) \<Rightarrow> exn + 'b" where
  "try_bind x f = (case x of Inl e \<Rightarrow> Inl e | Inr v \<Rightarrow> f v)"

definition within_range :: "'d::linorder \<Rightarrow> 'd \<Rightarrow> (string \<Rightarrow> 'd option) \<Rightarrow> string \<Rightarrow> exn + bool" where
  "within_range START_DATE END_DATE fromisoformat date_str =
     (case fromisoformat date_str of
        None \<Rightarrow> Inl ValueError
      | Some d \<Rightarrow> Inr (START_DATE \<le> d \<and> d \<le> END_DATE))"

record 'f ohlcv =
  o_date :: string
  o_symbol :: string
  o_asset_type :: string
  o_open :: 'f
  o_high :: 'f
  o_low :: 'f
  o_close :: 'f
  o_volume :: 'f

text \<open>The dictionary built for one day; its values are evaluated in the order written.\<close>

definition stock_record :: "(json \<Rightarrow> exn + 'f) \<Rightarrow> string \<Rightarrow> string \<Rightarrow> json \<Rightarrow> exn + 'f ohlcv" where
  "stock_record to_float symbol date_str row =
     try_bind (try_bind (subscript row ''1. open'') to_float) (\<lambda>op.
     try_bind (try_bind (subscript row ''2. high'') to_float) (\<lambda>hi.
     try_bind (try_bind (subscript row ''3. low'') to_float) (\<lambda>lo.
     try_bind (try_bind (subscript row ''4. close'') to_float) (\<lambda>cl.
     try_bind (try_bind (subscript row ''5. volume'') to_float) (\<lambda>vol.
       Inr \<lparr>o_date = date_str, o_symbol = symbol, o_asset_type = ''equity'',
            o_open = op, o_high = hi, o_low = lo, o_close = cl, o_volume = vol\<rparr>)))))"

text \<open>The loop \<open>for date_str, row in series.items()\<close>: the first exception leaves it.\<close>

fun stock_records ::
  "'d::linorder \<Rightarrow> 'd \<Rightarrow> (string \<Rightarrow> 'd option) \<Rightarrow> (json \<Rightarrow> exn + 'f) \<Rightarrow> string
     \<Rightarrow> (string \<times> json) list \<Rightarrow> 'f ohlcv list \<Rightarrow> exn + 'f ohlcv list" where
  "stock_records START_DATE END_DATE fromisoformat to_float symbol [] records = Inr records"
| "stock_records START_DATE END_DATE fromisoformat to_float symbol ((date_str, row) # rest) records =
     (case within_range START_DATE END_DATE fromisoformat date_str of
        Inl e \<Rightarrow> Inl e
      | Inr False \<Rightarrow>
          stock_records START_DATE END_DATE fromisoformat to_float symbol rest records
      | Inr True \<Rightarrow>
          (case stock_record to_float symbol date_str row of
             Inl e \<Rightarrow> Inl e
           | Inr r \<Rightarrow>
               stock_records START_DATE END_DATE fromisoformat to_float symbol rest (records @ [r])))"

definition API_KEY :: string where
  "API_KEY = ''ZP30FX94JVIC7GZR''"

definition fetch_stock_daily ::
  "'d::linorder \<Rightarrow> 'd \<Rightarrow> (string \<Rightarrow> 'd option) \<Rightarrow> (json \<Rightarrow> exn + 'f)
     \<Rightarrow> ((string \<times> string) list, json option) network \<Rightarrow> string \<Rightarrow> (string \<times> string) list world
     \<Rightarrow> 'f ohlcv list result \<times> (string \<times> string) list world" where
  "fetch_stock_daily START_DATE END_DATE fromisoformat to_float net symbol w =
     (let params = [(''function'', ''TIME_SERIES_DAILY''), (''symbol'', symbol),
                    (''outputsize'', ''full''), (''datatype'', ''json''), (''apikey'', API_KEY)]
      in case request_with_retries net params 6 w of
           (Raised e, w') \<Rightarrow> (Raised e, w')
         | (ReturnedNone, w') \<Rightarrow> (Raised TypeError, w')
         | (Returned payload, w') \<Rightarrow>
             (case map_of payload ''Time Series (Daily)'' of
                None \<Rightarrow> (Raised (AlphaVantageError MissingKey), w')
              | Some (JObj series) \<Rightarrow>
                  (case stock_records START_DATE END_DATE fromisoformat to_float symbol series [] of
                     Inl e \<Rightarrow> (Raised e, w')
                   | Inr records \<Rightarrow> (Returned (sort_key o_date records), w'))
              | Some _ \<Rightarrow> (Raised AttributeError, w')))"

record 'f macro_row =
  m_date :: string
  m_indicator :: string
  m_value :: 'f

text \<open>
  The loop \<open>for item in payload["data"]\<close> of \<open>fetch_indicator\<close>.  An item that is not an
  object makes \<open>item.get\<close> raise \<open>AttributeError\<close>; a truthy date that is not a string makes
  \<open>fromisoformat\<close> raise \<open>TypeError\<close>; of what \<open>float\<close> raises, \<open>TypeError\<close> and
  \<open>ValueError\<close> are caught and the item is skipped.
\<close>

fun indicator_rows ::
  "'d::linorder \<Rightarrow> 'd \<Rightarrow> (string \<Rightarrow> 'd option) \<Rightarrow> (json \<Rightarrow> exn + 'f) \<Rightarrow> string
     \<Rightarrow> json list \<Rightarrow> 'f macro_row list \<Rightarrow> exn + 'f macro_row list" where
  "indicator_rows START_DATE END_DATE fromisoformat to_float indicator_code [] rows = Inr rows"
| "indicator_rows START_DATE END_DATE fromisoformat to_float indicator_code (JObj item # rest) rows =
     (let date_str = dict_get item ''date'';
          value_str = dict_get item ''value''
      in if \<not> truthy_opt date_str \<or> value_str = None
         then indicator_rows START_DATE END_DATE fromisoformat to_float indicator_code rest rows
         else (case the date_str of
                 JStr s \<Rightarrow>
                   (case within_range START_DATE END_DATE fromisoformat s of
                      Inl e \<Rightarrow> Inl e
                    | Inr False \<Rightarrow>
                        indicator_rows START_DATE END_DATE fromisoformat to_float indicator_code rest rows
                    | Inr True \<Rightarrow>
                        (case to_float (the value_str) of
                           Inl TypeError \<Rightarrow>
                             indicator_rows START_DATE END_DATE fromisoformat to_float indicator_code rest rows
                         | Inl ValueError \<Rightarrow>
                             indicator_rows START_DATE END_DATE fromisoformat to_float indicator_code rest rows
                         | Inl e \<Rightarrow> Inl e
                         | Inr v \<Rightarrow>
                             indicator_rows START_DATE END_DATE fromisoformat to_float indicator_code rest
                               (rows @ [\<lparr>m_date = s, m_indicator = indicator_code, m_value = v\<rparr>])))
               | _ \<Rightarrow> Inl TypeError))"
| "indicator_rows START_DATE END_DATE fromisoformat to_float indicator_code (item # rest) rows =
     Inl AttributeError"

definition fetch_indicator ::
  "'d::linorder \<Rightarrow> 'd \<Rightarrow> (string \<Rightarrow> 'd option) \<Rightarrow> (json \<Rightarrow> exn + 'f)
     \<Rightarrow> ((string \<times> string) list, json option) network \<Rightarrow> string \<Rightarrow> string \<Rightarrow> string
     \<Rightarrow> (string \<times> string) list world \<Rightarrow> 'f macro_row list result \<times> (string \<times> string) list world" where
  "fetch_indicator START_DATE END_DATE fromisoformat to_float net function_name indicator_code interval w =
     (let params = [(''function'', function_name), (''apikey'', API_KEY), (''interval'', interval)]
      in case request_with_retries net params 6 w of
           (Raised e, w') \<Rightarrow> (Raised e, w')
         | (ReturnedNone, w') \<Rightarrow> (Raised TypeError, w')
         | (Returned payload, w') \<Rightarrow>
             (case map_of payload ''data'' of
                None \<Rightarrow> (Raised (AlphaVantageError MissingKey), w')
              | Some data \<Rightarrow>
                  (case py_iter data of
                     None \<Rightarrow> (Raised TypeError, w')
                   | Some items \<Rightarrow>
                       (case indicator_rows START_DATE END_DATE fromisoformat to_float indicator_code
                               items [] of
                          Inl e \<Rightarrow> (Raised e, w')
                        | Inr rows \<Rightarrow> (Returned (sort_key m_date rows), w')))))"


section \<open>Fear and Greed: \<open>filter_and_normalize_records\<close>\<close>

text \<open>
  The functions of the Python library the normalization calls are the fields of a record:
  \<open>py_int j\<close> is \<open>int(str(j))\<close>, \<open>None\<close> when it raises \<open>ValueError\<close>;
  \<open>py_utc_date ts\<close> is \<open>datetime.utcfromtimestamp(ts).date()\<close>, which yields a date of a
  linearly ordered type or raises (\<open>ValueError\<close>, \<open>OverflowError\<close> or \<open>OSError\<close> for a
  timestamp outside the years it supports);
  \<open>py_isoformat\<close> is \<open>date.isoformat\<close>;
  \<open>py_value v\<close> is the expression
  \<open>int(v) if isinstance(v, (int, str)) and str(v).isdigit() else None\<close>, which yields an
  integer or \<open>None\<close>, or raises \<open>ValueError\<close> (for a digit that \<open>int\<close> does not read, as
  a superscript two); \<open>py_str\<close> is \<open>str\<close>.
  The calls of \<open>py_utc_date\<close> and \<open>py_value\<close> stand outside the \<open>try\<close> of the loop.
  The fields of a row carry the prefix \<open>f_\<close>.
\<close>

record ('d, 'v) pylib =
  py_int :: "json \<Rightarrow> int option"
  py_utc_date :: "int \<Rightarrow> exn + 'd"
  py_isoformat :: "'d \<Rightarrow> string"
  py_value :: "json option \<Rightarrow> exn + 'v"
  py_str :: "json \<Rightarrow> string"

record 'v fng_row =
  f_date :: string
  f_value :: 'v
  f_value_classification :: "string option"
  f_timestamp :: int
  f_source :: string
  f_source_url :: string

definition SOURCE_NAME :: string where
  "SOURCE_NAME = ''Alternative.me Fear and Greed Index''"

definition SOURCE_URL :: string where
  "SOURCE_URL = ''https://api.alternative.me/fng/''"

text \<open>The dictionary \<open>normalized\<close> of one record; building it raises when \<open>py_value\<close> does.\<close>

definition normalized ::
  "('d, 'v) pylib \<Rightarrow> (string \<times> json) list \<Rightarrow> int \<Rightarrow> 'd \<Rightarrow> exn + 'v fng_row" where
  "normalized py rec ts day =
     (case py_value py (dict_get rec ''value'') of
        Inl e \<Rightarrow> Inl e
      | Inr v \<Rightarrow>
          Inr \<lparr>f_date = py_isoformat py day,
               f_value = v,
               f_value_classification = map_option (py_str py) (dict_get rec ''value_classification''),
               f_timestamp = ts,
               f_source = SOURCE_NAME,
               f_source_url = SOURCE_URL\<rparr>)"

text \<open>\<open>d[k] = v\<close> on a dictionary kept in insertion order.\<close>

fun dict_set :: "'k \<Rightarrow> 'v \<Rightarrow> ('k \<times> 'v) list \<Rightarrow> ('k \<times> 'v) list" where
  "dict_set k v [] = [(k, v)]"
| "dict_set k v ((k', v') # kvs) = (if k' = k then (k, v) # kvs else (k', v') # dict_set k v kvs)"

text \<open>
  The loop \<open>for rec in records\<close> on the dictionary \<open>by_date\<close>.  A record that is not an
  object has no \<open>get\<close>: \<open>AttributeError\<close>.
\<close>

fun normalize_loop ::
  "('d::linorder, 'v) pylib \<Rightarrow> 'd \<Rightarrow> 'd \<Rightarrow> json list \<Rightarrow> ('d \<times> int \<times> 'v fng_row) list
     \<Rightarrow> exn + ('d \<times> int \<times> 'v fng_row) list" where
  "normalize_loop py start_date end_date [] by_date = Inr by_date"
| "normalize_loop py start_date end_date (JObj rec # rest) by_date =
     (case dict_get rec ''timestamp'' of
        None \<Rightarrow> normalize_loop py start_date end_date rest by_date
      | Some ts_raw \<Rightarrow>
          (case py_int py ts_raw of
             None \<Rightarrow> normalize_loop py start_date end_date rest by_date
           | Some ts \<Rightarrow>
               (case py_utc_date py ts of
                  Inl e \<Rightarrow> Inl e
                | Inr day \<Rightarrow>
                    if day < start_date \<or> day > end_date
                    then normalize_loop py start_date end_date rest by_date
                    else (case normalized py rec ts day of
                            Inl e \<Rightarrow> Inl e
                          | Inr row \<Rightarrow>
                              let prev = map_of by_date day
                              in if prev = None \<or> ts \<ge> fst (the prev)
                                 then normalize_loop py start_date end_date rest
                                        (dict_set day (ts, row) by_date)
                                 else normalize_loop py start_date end_date rest by_date))))"
| "normalize_loop py start_date end_date (rec # rest) by_date = Inl AttributeError"

text \<open>
  \<open>sorted(by_date.values(), key=lambda x: _to_utc_date_from_unix_seconds(x[0]))\<close>: the key
  of every value is computed, in order, before the values are sorted.
\<close>

fun with_keys ::
  "('d, 'v) pylib \<Rightarrow> (int \<times> 'v fng_row) list \<Rightarrow> exn + ('d \<times> int \<times> 'v fng_row) list" where
  "with_keys py [] = Inr []"
| "with_keys py (x # xs) =
     (case py_utc_date py (fst x) of
        Inl e \<Rightarrow> Inl e
      | Inr d \<Rightarrow> (case with_keys py xs of Inl e \<Rightarrow> Inl e | Inr ks \<Rightarrow> Inr ((d, x) # ks)))"

definition filter_and_normalize_records ::
  "('d::linorder, 'v) pylib \<Rightarrow> json list \<Rightarrow> 'd \<Rightarrow> 'd \<Rightarrow> exn + 'v fng_row list" where
  "filter_and_normalize_records py records start_date end_date =
     (case normalize_loop py start_date end_date records [] of
        Inl e \<Rightarrow> Inl e
      | Inr by_date \<Rightarrow>
          (case with_keys py (map snd by_date) of
             Inl e \<Rightarrow> Inl e
           | Inr keyed \<Rightarrow>
               Inr (sort_key f_date (map (\<lambda>x. snd (snd x)) (sort_key fst keyed)))))"


section \<open>A small date library for the examples\<close>

text \<open>
  Instances of the library parameters on which the examples run: decimal numbers,
  dates as triples (year, month, day) in their lexicographic order, the parser of strings
  of the form YYYY-MM-DD, the date of a Unix timestamp (by the usual computation of the
  civil date from the count of days since 1970-01-01) and its ISO format.
\<close>

definition digit_val :: "char \<Rightarrow> int option" where
  "digit_val c = (if CHR ''0'' \<le> c \<and> c \<le> CHR ''9'' then Some (of_char c - 48) else None)"

fun decimal_acc :: "string \<Rightarrow> int \<Rightarrow> int option" where
  "decimal_acc [] acc = Some acc"
| "decimal_acc (c # cs) acc =
     (case digit_val c of None \<Rightarrow> None | Some d \<Rightarrow> decimal_acc cs (10 * acc + d))"

definition decimal :: "string \<Rightarrow> int option" where
  "decimal s = (if s = [] then None else decimal_acc s 0)"

type_synonym ymd = "int \<times> int \<times> int"

definition iso_date :: "string \<Rightarrow> ymd option" where
  "iso_date s =
     (if length s = 10 \<and> s ! 4 = CHR ''-'' \<and> s ! 7 = CHR ''-''
      then (case (decimal (take 4 s), decimal (take 2 (drop 5 s)), decimal (drop 8 s)) of
              (Some y, Some m, Some d) \<Rightarrow>
                if 1 \<le> y \<and> 1 \<le> m \<and> m \<le> 12 \<and> 1 \<le> d \<and> d \<le> 31
                then Some (y, m, d) else None
            | _ \<Rightarrow> None)
      else None)"

definition civil_from_days :: "int \<Rightarrow> ymd" where
  "civil_from_days days =
     (let z = days + 719468;
          era = z div 146097;
          doe = z mod 146097;
          yoe = (doe - doe div 1460 + doe div 36524 - doe div 146096) div 365;
          doy = doe - (365 * yoe + yoe div 4 - yoe div 100);
          mp = (5 * doy + 2) div 153;
          d = doy - (153 * mp + 2) div 5 + 1;
          m = (if mp < 10 then mp + 3 else mp - 9);
          y = yoe + era * 400 + (if m \<le> 2 then 1 else 0)
      in (y, m, d))"

definition utc_date :: "int \<Rightarrow> ymd" where
  "utc_date ts = civil_from_days (ts div 86400)"

fun pad :: "nat \<Rightarrow> int \<Rightarrow> string" where
  "pad 0 n = []"
| "pad (Suc k) n = pad k (n div 10) @ [char_of (48 + n mod 10)]"

definition isoformat :: "ymd \<Rightarrow> string" where
  "isoformat t = (case t of (y, m, d) \<Rightarrow> pad 4 y @ ''-'' @ pad 2 m @ ''-'' @ pad 2 d)"

text \<open>
  \<open>str.isdigit\<close> is true of the digits 0 to 9 and also of the superscripts one, two and
  three (the characters 185, 178 and 179), which \<open>int\<close> rejects.  \<open>utcfromtimestamp\<close> is
  defined for the years 1 to 9999.
\<close>

definition isdigit :: "string \<Rightarrow> bool" where
  "isdigit s \<longleftrightarrow> s \<noteq> [] \<and>
     list_all (\<lambda>c. digit_val c \<noteq> None \<or> of_char c \<in> {178, 179, 185 :: nat}) s"

definition example_py :: "(ymd, int option) pylib" where
  "example_py =
     \<lparr>py_int = (\<lambda>j. case j of JStr s \<Rightarrow> decimal s | JInt n \<Rightarrow> Some n | _ \<Rightarrow> None),
      py_utc_date = (\<lambda>ts. if - 62135596800 \<le> ts \<and> ts < 253402300800 then Inr (utc_date ts)
                           else Inl ValueError),
      py_isoformat = isoformat,
      py_value = (\<lambda>v. case v of
                         Some (JStr s) \<Rightarrow>
                           if isdigit s
                           then (case decimal s of Some n \<Rightarrow> Inr (Some n) | None \<Rightarrow> Inl ValueError)
                           else Inr None
                       | Some (JInt n) \<Rightarrow> Inr (if 0 \<le> n then Some n else None)
                       | _ \<Rightarrow> Inr None),
      py_str = (\<lambda>j. case j of JStr s \<Rightarrow> s | _ \<Rightarrow> ''?'')\<rparr>"

definition example_float :: "json \<Rightarrow> exn + string" where
  "example_float j =
     (case j of
        JStr s \<Rightarrow> (if list_ex (\<lambda>c. digit_val c \<noteq> None) s
                        \<and> list_all (\<lambda>c. digit_val c \<noteq> None \<or> c = CHR ''.'') s then Inr s
                   else Inl ValueError)
      | _ \<Rightarrow> Inl TypeError)"


section \<open>Vocabulary of the claims\<close>

text \<open>
  The state of a script when it starts, the clock reading \<open>t\<close>: nothing sent, nothing
  slept, and for the Seeking Alpha module the marker at its initial value 0.0.
\<close>

definition boot :: "rat \<Rightarrow> 'q world" where
  "boot t = \<lparr>clock = t, served = 0, events = []\<rparr>"

definition sa_boot :: "rat \<Rightarrow> 'q sa_state" where
  "sa_boot t = \<lparr>clock = t, served = 0, events = [], LAST_REQUEST_TIME = 0\<rparr>"

text \<open>
  A geometric sequence of \<open>n\<close> delays with a base and a multiplier, and the same sequence
  with every delay capped.
\<close>

definition geometric :: "rat \<Rightarrow> rat \<Rightarrow> nat \<Rightarrow> rat list" where
  "geometric base mult n = map (\<lambda>k. base * mult ^ k) [0..<n]"

definition capped_geometric :: "rat \<Rightarrow> rat \<Rightarrow> rat \<Rightarrow> nat \<Rightarrow> rat list" where
  "capped_geometric base mult cap n = map (\<lambda>k. min (base * mult ^ k) cap) [0..<n]"

text \<open>
  The backoff of the Alpha Vantage helper before attempt \<open>k + 2\<close>, and of the Seeking Alpha
  helper.
\<close>

definition av_backoff :: "nat \<Rightarrow> rat" where
  "av_backoff k = min (15 * 2 ^ k) 120"

definition sa_backoff :: "config \<Rightarrow> nat \<Rightarrow> rat" where
  "sa_backoff cfg k = BACKOFF_FACTOR cfg * 2 ^ k"

text \<open>
  The ways an attempt can fail: the throttling signal of Alpha Vantage (a truthy \<open>Note\<close>
  or \<open>Information\<close> field of the decoded body), a network error or an HTTP error status,
  and for the Fear and Greed helper anything but a 200 response with a JSON body.
\<close>

fun av_throttled :: "json option reply \<Rightarrow> bool" where
  "av_throttled (Response status (Some (JObj payload))) = throttled payload"
| "av_throttled _ = False"

fun http_failure :: "'b reply \<Rightarrow> bool" where
  "http_failure NetworkError = True"
| "http_failure (Response status body) = raise_for_status status"

definition fng_caught :: "url_body reply \<Rightarrow> bool" where
  "fng_caught r \<longleftrightarrow> try_once r = Caught"


text \<open>
  The date of the dated record an article yields, if it yields one (an \<open>h3\<close> whose text
  contains ``Earnings Call Transcript'', a non-empty \<open>href\<close> and a date text that parses to
  a date), and the dates of the dated records seen on a page.  A page is stale when it has
  at least one dated record, none of them inside the inclusive window, and the oldest of
  them precedes the start of the window.  \<open>page_no\<close> is the page a request asks for.
\<close>

definition listed_date :: "(string \<Rightarrow> 'd parsed option) \<Rightarrow> article \<Rightarrow> 'd option" where
  "listed_date to_datetime art =
     (case h3 art of
        None \<Rightarrow> None
      | Some ttl \<Rightarrow>
          if \<not> contains ''Earnings Call Transcript'' ttl then None
          else (case href art of
                  None \<Rightarrow> None
                | Some hr \<Rightarrow>
                    if hr = [] then None
                    else (case to_datetime (case span art of Some s \<Rightarrow> s | None \<Rightarrow> []) of
                            Some (Naive d) \<Rightarrow> Some d
                          | _ \<Rightarrow> None)))"

definition listed_dates :: "(string \<Rightarrow> 'd parsed option) \<Rightarrow> article list \<Rightarrow> 'd list" where
  "listed_dates to_datetime articles = List.map_filter (listed_date to_datetime) articles"

definition stale_page :: "'d::linorder \<Rightarrow> 'd \<Rightarrow> (string \<Rightarrow> 'd parsed option) \<Rightarrow> article list \<Rightarrow> bool" where
  "stale_page START_DATE END_DATE to_datetime articles \<longleftrightarrow>
     (let ds = listed_dates to_datetime articles
      in ds \<noteq> [] \<and> list_all (\<lambda>d. \<not> (START_DATE \<le> d \<and> d \<le> END_DATE)) ds
         \<and> Min (set ds) < START_DATE)"

fun page_no :: "page_request \<Rightarrow> nat" where
  "page_no (u, None) = 1"
| "page_no (u, Some p) = p"




text \<open>
  A date string lies in the window when \<open>fromisoformat\<close> reads it as a date between
  \<open>START_DATE\<close> and \<open>END_DATE\<close>, both included.  \<open>daily_params\<close> are the parameters
  \<open>fetch_stock_daily\<close> sends.
\<close>

definition in_window :: "'d::linorder \<Rightarrow> 'd \<Rightarrow> (string \<Rightarrow> 'd option) \<Rightarrow> string \<Rightarrow> bool" where
  "in_window START_DATE END_DATE fromisoformat s =
     (case fromisoformat s of None \<Rightarrow> False | Some d \<Rightarrow> START_DATE \<le> d \<and> d \<le> END_DATE)"


text \<open>
  The number of one field of a day's entry, as \<open>float(row[key])\<close> yields or raises it, the
  five fields \<open>fetch_stock_daily\<close> reads, and the row a day's entry gives when its five
  numbers parse.
\<close>

definition number :: "(json \<Rightarrow> exn + 'f) \<Rightarrow> json \<Rightarrow> string \<Rightarrow> exn + 'f" where
  "number to_float row key = try_bind (subscript row key) to_float"


definition row_of :: "(json \<Rightarrow> exn + 'f) \<Rightarrow> string \<Rightarrow> string \<times> json \<Rightarrow> 'f ohlcv" where
  "row_of to_float symbol entry =
     \<lparr>o_date = fst entry, o_symbol = symbol, o_asset_type = ''equity'',
      o_open = projr (number to_float (snd entry) ''1. open''),
      o_high = projr (number to_float (snd entry) ''2. high''),
      o_low = projr (number to_float (snd entry) ''3. low''),
      o_close = projr (number to_float (snd entry) ''4. close''),
      o_volume = projr (number to_float (snd entry) ''5. volume'')\<rparr>"


text \<open>
  The day of a Fear and Greed record is the UTC date of its timestamp, when it has one that
  reads as an integer and has a date; the day of an output row is what \<open>py_utc_date\<close>
  yields for its \<open>timestamp\<close> field.  What a record contributes to the output is its
  timestamp and its normalized row, when its day lies in the window: these are the
  \<open>entries\<close> of the input, in input order.
\<close>

definition fng_day :: "('d, 'v) pylib \<Rightarrow> json \<Rightarrow> 'd option" where
  "fng_day py j =
     (case j of
        JObj rec \<Rightarrow>
          (case dict_get rec ''timestamp'' of
             None \<Rightarrow> None
           | Some ts_raw \<Rightarrow>
               (case py_int py ts_raw of
                  None \<Rightarrow> None
                | Some ts \<Rightarrow> (case py_utc_date py ts of Inl e \<Rightarrow> None | Inr d \<Rightarrow> Some d)))
      | _ \<Rightarrow> None)"

definition row_day :: "('d, 'v) pylib \<Rightarrow> 'v fng_row \<Rightarrow> exn + 'd" where
  "row_day py r = py_utc_date py (f_timestamp r)"

definition fng_entry :: "('d::linorder, 'v) pylib \<Rightarrow> 'd \<Rightarrow> 'd \<Rightarrow> json \<Rightarrow> (int \<times> 'v fng_row) option" where
  "fng_entry py start_date end_date j =
     (case j of
        JObj rec \<Rightarrow>
          (case dict_get rec ''timestamp'' of
             None \<Rightarrow> None
           | Some ts_raw \<Rightarrow>
               (case py_int py ts_raw of
                  None \<Rightarrow> None
                | Some ts \<Rightarrow>
                    (case py_utc_date py ts of
                       Inl e \<Rightarrow> None
                     | Inr day \<Rightarrow>
                         if start_date \<le> day \<and> day \<le> end_date
                         then (case normalized py rec ts day of
                                 Inl e \<Rightarrow> None
                               | Inr row \<Rightarrow> Some (ts, row))
                         else None)))
      | _ \<Rightarrow> None)"

definition entries :: "('d::linorder, 'v) pylib \<Rightarrow> 'd \<Rightarrow> 'd \<Rightarrow> json list \<Rightarrow> (int \<times> 'v fng_row) list" where
  "entries py start_date end_date records = List.map_filter (fng_entry py start_date end_date) records"

definition on_day :: "('d, 'v) pylib \<Rightarrow> 'd \<Rightarrow> (int \<times> 'a) list \<Rightarrow> (int \<times> 'a) list" where
  "on_day py d cs = filter (\<lambda>c. py_utc_date py (fst c) = Inr d) cs"

text \<open>
  Of several entries, \<open>latest\<close> is the one with the greatest timestamp, and of those that
  share the greatest timestamp the one that comes last.
\<close>

definition latest :: "(int \<times> 'a) list \<Rightarrow> (int \<times> 'a) option" where
  "latest cs = (if cs = [] then None
                else Some (last (filter (\<lambda>c. fst c = Max (fst ` set cs)) cs)))"

text \<open>
  The loop of \<open>filter_and_normalize_records\<close> read as a fold: \<open>keep\<close> is its guard
  \<open>prev is None or ts >= prev[0]\<close> on one day, \<open>absorb\<close> is one pass of the loop body on the
  dictionary, and \<open>by_date_of\<close> is the dictionary at the end of the loop.
\<close>

definition keep :: "(int \<times> 'a) option \<Rightarrow> int \<times> 'a \<Rightarrow> (int \<times> 'a) option" where
  "keep prev c = (if prev = None \<or> fst c \<ge> fst (the prev) then Some c else prev)"

definition absorb ::
  "('d, 'v) pylib \<Rightarrow> ('d \<times> int \<times> 'v fng_row) list \<Rightarrow> int \<times> 'v fng_row \<Rightarrow> ('d \<times> int \<times> 'v fng_row) list" where
  "absorb py by_date c =
     (case py_utc_date py (fst c) of
        Inl e \<Rightarrow> by_date
      | Inr day \<Rightarrow>
          let prev = map_of by_date day
          in if prev = None \<or> fst c \<ge> fst (the prev) then dict_set day c by_date else by_date)"

definition by_date_of :: "('d::linorder, 'v) pylib \<Rightarrow> 'd \<Rightarrow> 'd \<Rightarrow> json list \<Rightarrow> ('d \<times> int \<times> 'v fng_row) list" where
  "by_date_of py S E records = foldl (absorb py) [] (entries py S E records)"


section \<open>Scripted networks used as examples\<close>

text \<open>
  An Alpha Vantage endpoint that answers twice with its rate-limit message and then with
  data; a Seeking Alpha server that fails once at the network, once with status 503, and
  then serves the page; and one whose first three requests fail at the network.
\<close>

definition flaky_av :: "(string, json option) network" where
  "flaky_av n q =
     (if n < 2 then (Response 200 (Some (JObj [(''Information'', JStr ''rate limit'')])), 1)
      else (Response 200 (Some (JObj [(''data'', JArr [])])), 1))"

definition flaky_sa :: "(string, string) network" where
  "flaky_sa n q =
     (if n = 0 then (NetworkError, 1)
      else if n = 1 then (Response 503 ''busy'', 1)
      else (Response 200 ''page'', 1))"

definition three_failures_then_page :: "(string, string) network" where
  "three_failures_then_page n q = (if n < 3 then (NetworkError, 1) else (Response 200 ''page'', 1))"


text \<open>
  A listing of three transcripts: the newest on page 1, the two of 2023 on every later page.
  In the first listing every article carries its date; in the second the first article of
  the later pages has no \<open>span\<close>, so that its date text is empty.
\<close>

definition example_to_datetime :: "string \<Rightarrow> (int \<times> int \<times> int) parsed option" where
  "example_to_datetime s =
     (if s = [] then Some NaT
      else if s = ''Feb. 21, 2024'' then Some (Naive (2024, 2, 21))
      else if s = ''Nov. 21, 2023'' then Some (Naive (2023, 11, 21))
      else if s = ''Aug. 23, 2023'' then Some (Naive (2023, 8, 23))
      else None)"

definition example_listing :: "nat \<Rightarrow> article list" where
  "example_listing p =
     (if p = 1 then
        [\<lparr>h3 = Some ''NVIDIA Q4 2024 Earnings Call Transcript'', href = Some ''/article/3'',
          span = Some ''Feb. 21, 2024''\<rparr>]
      else
        [\<lparr>h3 = Some ''NVIDIA Q3 2024 Earnings Call Transcript'', href = Some ''/article/2'',
          span = Some ''Nov. 21, 2023''\<rparr>,
         \<lparr>h3 = Some ''NVIDIA Q2 2024 Earnings Call Transcript'', href = Some ''/article/1'',
          span = Some ''Aug. 23, 2023''\<rparr>])"

definition example_site :: "(page_request, article list) network" where
  "example_site n q = (Response 200 (example_listing (page_no q)), 1)"

definition undated_listing :: "nat \<Rightarrow> article list" where
  "undated_listing p =
     (if p = 1 then
        [\<lparr>h3 = Some ''NVIDIA Q4 2024 Earnings Call Transcript'', href = Some ''/article/3'',
          span = Some ''Feb. 21, 2024''\<rparr>]
      else
        [\<lparr>h3 = Some ''NVIDIA Q3 2024 Earnings Call Transcript'', href = Some ''/article/2'',
          span = None\<rparr>,
         \<lparr>h3 = Some ''NVIDIA Q2 2024 Earnings Call Transcript'', href = Some ''/article/1'',
          span = Some ''Aug. 23, 2023''\<rparr>])"

definition undated_site :: "(page_request, article list) network" where
  "undated_site n q = (Response 200 (undated_listing (page_no q)), 1)"




text \<open>
  Two runs of the earnings script, one in which the work for KO raises and one in which
  the work for every symbol raises; and an API that knows the account \<open>alice\<close> only.
\<close>

definition ko_fails :: "string \<Rightarrow> string world \<Rightarrow> exn option \<times> string world" where
  "ko_fails symbol w = (if symbol = ''KO'' then Some RuntimeError else None, w)"

definition both_fail :: "string \<Rightarrow> string world \<Rightarrow> exn option \<times> string world" where
  "both_fail symbol w = (Some RuntimeError, w)"

definition x_api :: "(x_request, json option) network" where
  "x_api n q =
     (case q of
        UserByScreenName name \<Rightarrow>
          if name = ''alice''
          then (Response 200 (Some (JObj [(''data'', JObj [(''user'', JObj [(''result'',
                  JObj [(''rest_id'', JStr ''7'')])])])])), 1)
          else (NetworkError, 1)
      | UserTweets user_id cursor \<Rightarrow>
          (Response 200 (Some (JObj [(''tweets'', JArr [JStr ''t1''])])), 1))"


text \<open>
  The scenario of the date window: an Alpha Vantage payload and a Fear and Greed payload
  with the days 2023-12-31, 2024-01-01, 2024-01-02 and 2024-01-04.
\<close>

definition bar :: "string \<Rightarrow> json" where
  "bar price =
     JObj [(''1. open'', JStr price), (''2. high'', JStr ''191.5''), (''3. low'', JStr ''187.0''),
           (''4. close'', JStr ''190.25''), (''5. volume'', JStr ''1200300'')]"



definition reading :: "string \<Rightarrow> string \<Rightarrow> json" where
  "reading v ts = JObj [(''value'', JStr v), (''value_classification'', JStr ''Greed''),
                        (''timestamp'', JStr ts)]"


text \<open>
  Four readings of the same day, two of them with the same greatest timestamp; and two
  readings of the same day of which the first has the later timestamp.
\<close>

definition tie_fng :: "json list" where
  "tie_fng =
     [reading ''40'' ''1704067200'', reading ''50'' ''1704070800'',
      reading ''55'' ''1704070800'', reading ''45'' ''1704069000'']"

definition later_reading :: "(string \<times> json) list" where
  "later_reading = [(''value'', JStr ''50''), (''timestamp'', JStr ''1704070800'')]"

definition earlier_reading :: "(string \<times> json) list" where
  "earlier_reading = [(''value'', JStr ''40''), (''timestamp'', JStr ''1704067200'')]"



text \<open>
  Payloads with one field that does not parse: a macro indicator with the value ``.'' on
  one day, a macro indicator with a date in another format, a daily series with a closing
  price that is not a number, and Fear and Greed records of which one has a timestamp that
  is not a number and one a timestamp in the year 10000.
\<close>

definition bad_value_macro :: "((string \<times> string) list, json option) network" where
  "bad_value_macro n q =
     (Response 200 (Some (JObj [(''data'',
        JArr [JObj [(''date'', JStr ''2024-01-01''), (''value'', JStr ''5.33'')],
              JObj [(''date'', JStr ''2024-01-02''), (''value'', JStr ''.'')],
              JObj [(''date'', JStr ''2024-01-03''), (''value'', JStr ''5.31'')]])])), 1)"

definition bad_date_macro :: "((string \<times> string) list, json option) network" where
  "bad_date_macro n q =
     (Response 200 (Some (JObj [(''data'',
        JArr [JObj [(''date'', JStr ''2024-01-01''), (''value'', JStr ''5.33'')],
              JObj [(''date'', JStr ''01/02/2024''), (''value'', JStr ''5.32'')],
              JObj [(''date'', JStr ''2024-01-03''), (''value'', JStr ''5.31'')]])])), 1)"

definition bad_number_av :: "((string \<times> string) list, json option) network" where
  "bad_number_av n q =
     (Response 200 (Some (JObj [(''Time Series (Daily)'',
        JObj [(''2024-01-01'', bar ''189.0''),
              (''2024-01-02'',
                 JObj [(''1. open'', JStr ''189.5''), (''2. high'', JStr ''191.5''),
                       (''3. low'', JStr ''187.0''), (''4. close'', JStr ''n/a''),
                       (''5. volume'', JStr ''1200300'')]),
              (''2024-01-03'', bar ''190.0'')])])), 1)"

definition unstamped_fng :: "json list" where
  "unstamped_fng =
     [reading ''40'' ''1704067200'', reading ''41'' ''soon'', reading ''71'' ''1704153600'']"

definition far_future_fng :: "json list" where
  "far_future_fng =
     [reading ''40'' ''1704067200'', reading ''41'' ''253402300800'', reading ''71'' ''1704153600'']"


section \<open>Properties of the retry helpers\<close>

subsection \<open>The log\<close>

lemma sleeps_append [simp]: "sleeps s (xs @ ys) = sleeps s xs @ sleeps s ys"
  by (induction s xs rule: sleeps.induct) auto

lemma sent_append [simp]: "sent (xs @ ys) = sent xs @ sent ys"
  by (induction xs rule: sent.induct) auto

lemma http_get_fst: "fst (http_get net q w) = fst (net (served w) q)"
  by (simp add: http_get_def Let_def split: prod.splits)

lemma http_get_served: "served (snd (http_get net q w)) = Suc (served w)"
  by (simp add: http_get_def Let_def split: prod.splits)

lemma http_get_sleeps: "sleeps s (events (snd (http_get net q w))) = sleeps s (events w)"
  by (simp add: http_get_def Let_def split: prod.splits)

lemma http_get_sent:
  "sent (events (snd (http_get net q w))) =
     sent (events w) @ [(q, clock w, clock w + snd (net (served w) q))]"
  by (simp add: http_get_def Let_def split: prod.splits)

lemma sleep_served: "served (sleep s d w) = served w"
  by (simp add: sleep_def)

lemma sleep_sent: "sent (events (sleep s d w)) = sent (events w)"
  by (simp add: sleep_def)

lemma sleep_sleeps:
  "sleeps s' (events (sleep s d w)) = sleeps s' (events w) @ (if s = s' then [d] else [])"
  by (simp add: sleep_def)

lemma av_backoff_step:
  "min (min (15 * 2 ^ k) 120 * 2) (120::rat) = min (15 * 2 ^ Suc k) 120"
  by (simp add: min_def)

subsection \<open>Alpha Vantage helper\<close>

lemma av_backoff_Suc: "min (av_backoff k * 2) 120 = av_backoff (Suc k)"
  by (simp add: av_backoff_def min_def)

lemma request_loop_throttled:
  assumes "fst (net (served w) q) = Response s (Some (JObj p))" and "throttled p" and "a < r"
  shows "request_loop r net q a b w =
           request_loop r net q (Suc a) (min (b * 2) 120) (sleep Backoff b (snd (http_get net q w)))"
proof -
  obtain rr w1 where h: "http_get net q w = (rr, w1)" by (cases "http_get net q w")
  have rr: "rr = Response s (Some (JObj p))" using h assms(1) http_get_fst[of net q w] by simp
  show ?thesis using rr h assms(2,3) by (subst request_loop.simps) simp
qed

lemma request_loop_throttled_last:
  assumes "fst (net (served w) q) = Response s (Some (JObj p))" and "throttled p" and "a = r"
  shows "request_loop r net q a b w =
           (Raised (AlphaVantageError (RateLimited r)), snd (http_get net q w))"
proof -
  obtain rr w1 where h: "http_get net q w = (rr, w1)" by (cases "http_get net q w")
  have rr: "rr = Response s (Some (JObj p))" using h assms(1) http_get_fst[of net q w] by simp
  show ?thesis using rr h assms(2,3) by (subst request_loop.simps) simp
qed

lemma request_loop_clean:
  assumes "fst (net (served w) q) = Response s (Some (JObj p))" and "\<not> throttled p"
    and "''Error Message'' \<notin> fst ` set p" and "a \<le> r"
  shows "request_loop r net q a b w = (Returned p, snd (http_get net q w))"
proof -
  obtain rr w1 where h: "http_get net q w = (rr, w1)" by (cases "http_get net q w")
  have rr: "rr = Response s (Some (JObj p))" using h assms(1) http_get_fst[of net q w] by simp
  show ?thesis using rr h assms(2,3,4) by (subst request_loop.simps) simp
qed

lemma request_loop_network_error:
  assumes "fst (net (served w) q) = NetworkError" and "a \<le> r"
  shows "request_loop r net q a b w = (Raised RequestException, snd (http_get net q w))"
proof -
  obtain rr w1 where h: "http_get net q w = (rr, w1)" by (cases "http_get net q w")
  have rr: "rr = NetworkError" using h assms(1) http_get_fst[of net q w] by simp
  show ?thesis using rr h assms(2) by (subst request_loop.simps) simp
qed

lemma av_throttledE:
  assumes "av_throttled r"
  obtains s p where "r = Response s (Some (JObj p))" and "throttled p"
  using assms by (cases r rule: av_throttled.cases) auto

lemma request_loop_k_throttled:
  assumes "\<forall>i<k. av_throttled (fst (net (served w + i) q))" and "1 \<le> a" and "a + k \<le> r"
  shows "\<exists>w'. request_loop r net q a (av_backoff (a - 1)) w
               = request_loop r net q (a + k) (av_backoff (a + k - 1)) w' \<and>
             served w' = served w + k \<and>
             length (sent (events w')) = length (sent (events w)) + k \<and>
             sleeps Backoff (events w') =
               sleeps Backoff (events w) @ map av_backoff [a - 1..<a + k - 1]"
  using assms
proof (induction k arbitrary: a w)
  case 0
  show ?case by (rule exI[of _ w]) simp
next
  case (Suc k)
  from Suc.prems(1) have "av_throttled (fst (net (served w) q))" by force
  then obtain s p where rep: "fst (net (served w) q) = Response s (Some (JObj p))"
    and t: "throttled p" by (auto elim: av_throttledE)
  let ?w2 = "sleep Backoff (av_backoff (a - 1)) (snd (http_get net q w))"
  have sv: "served ?w2 = Suc (served w)" by (simp add: sleep_served http_get_served)
  have step: "request_loop r net q a (av_backoff (a - 1)) w
      = request_loop r net q (Suc a) (av_backoff (Suc a - 1)) ?w2"
    using request_loop_throttled[where net=net and w=w and q=q and s=s and p=p and a=a and r=r
        and b="av_backoff (a - 1)"] rep t Suc.prems(2,3) av_backoff_Suc[of "a - 1"] by simp
  have "\<forall>i<k. av_throttled (fst (net (served ?w2 + i) q))"
    using Suc.prems(1) sv by (metis Suc_less_eq add_Suc_shift)
  from Suc.IH[OF this, of "Suc a"] Suc.prems(3)
  obtain w' where w': "request_loop r net q (Suc a) (av_backoff (Suc a - 1)) ?w2
               = request_loop r net q (Suc a + k) (av_backoff (Suc a + k - 1)) w'"
      "served w' = served ?w2 + k"
      "length (sent (events w')) = length (sent (events ?w2)) + k"
      "sleeps Backoff (events w') =
               sleeps Backoff (events ?w2) @ map av_backoff [Suc a - 1..<Suc a + k - 1]"
    by auto
  have upt: "[a - 1..<a + Suc k - 1] = (a - 1) # [Suc a - 1..<Suc a + k - 1]"
    using Suc.prems(2) by (simp add: upt_conv_Cons)
  show ?case
    apply (rule exI[of _ w'])
    using step w' sv upt
    by (simp add: sleep_sent sleep_sleeps http_get_sent http_get_sleeps)
qed

subsection \<open>Seeking Alpha helper\<close>

lemma attempt_get_failure:
  assumes "http_failure (fst (net (served w) q))"
  shows "fst (attempt_get cfg net q w) = Inl ()"
    and "LAST_REQUEST_TIME (snd (attempt_get cfg net q w)) = LAST_REQUEST_TIME w"
    and "served (snd (attempt_get cfg net q w)) = Suc (served w)"
    and "sleeps Backoff (events (snd (attempt_get cfg net q w))) = sleeps Backoff (events w)"
    and "length (sent (events (snd (attempt_get cfg net q w)))) = Suc (length (sent (events w)))"
proof -
  obtain r took where n: "net (served w) q = (r, took)" by (cases "net (served w) q")
  with assms have f: "http_failure r" by simp
  show "fst (attempt_get cfg net q w) = Inl ()"
    and "LAST_REQUEST_TIME (snd (attempt_get cfg net q w)) = LAST_REQUEST_TIME w"
    and "served (snd (attempt_get cfg net q w)) = Suc (served w)"
    and "sleeps Backoff (events (snd (attempt_get cfg net q w))) = sleeps Backoff (events w)"
    and "length (sent (events (snd (attempt_get cfg net q w)))) = Suc (length (sent (events w)))"
    using f n by (cases r; simp add: attempt_get_def http_get_def sleep_def Let_def)+
qed

lemma attempt_get_success:
  assumes "fst (net (served w) q) = Response s b" and "\<not> raise_for_status s"
  shows "fst (attempt_get cfg net q w) = Inr (s, b)"
    and "LAST_REQUEST_TIME (snd (attempt_get cfg net q w)) = clock (snd (attempt_get cfg net q w))"
    and "served (snd (attempt_get cfg net q w)) = Suc (served w)"
    and "sleeps Backoff (events (snd (attempt_get cfg net q w))) = sleeps Backoff (events w)"
    and "length (sent (events (snd (attempt_get cfg net q w)))) = Suc (length (sent (events w)))"
proof -
  obtain r took where n: "net (served w) q = (r, took)" by (cases "net (served w) q")
  with assms have f: "r = Response s b" by simp
  show "fst (attempt_get cfg net q w) = Inr (s, b)"
    and "LAST_REQUEST_TIME (snd (attempt_get cfg net q w)) = clock (snd (attempt_get cfg net q w))"
    and "served (snd (attempt_get cfg net q w)) = Suc (served w)"
    and "sleeps Backoff (events (snd (attempt_get cfg net q w))) = sleeps Backoff (events w)"
    and "length (sent (events (snd (attempt_get cfg net q w)))) = Suc (length (sent (events w)))"
    using f n assms(2) by (simp_all add: attempt_get_def http_get_def sleep_def Let_def)
qed

lemma rate_limited_loop_failure:
  assumes "http_failure (fst (net (served w) q))" and "a < MAX_RETRIES cfg"
    and "0 \<le> BACKOFF_FACTOR cfg"
  shows "rate_limited_loop cfg net q a w =
           rate_limited_loop cfg net q (Suc a)
             (sleep Backoff (BACKOFF_FACTOR cfg * 2 ^ (a - 1)) (snd (attempt_get cfg net q w)))"
proof -
  obtain x w1 where h: "attempt_get cfg net q w = (x, w1)" by (cases "attempt_get cfg net q w")
  have x: "x = Inl ()" using h attempt_get_failure(1)[where net=net and w=w and q=q and cfg=cfg] assms(1) by simp
  show ?thesis using x h assms(2,3)
    by (subst rate_limited_loop.simps) (simp add: Let_def mult_less_0_iff)
qed

lemma rate_limited_loop_failure_last:
  assumes "http_failure (fst (net (served w) q))" and "a = MAX_RETRIES cfg"
  shows "rate_limited_loop cfg net q a w =
           (Raised RequestException, snd (attempt_get cfg net q w))"
proof -
  obtain x w1 where h: "attempt_get cfg net q w = (x, w1)" by (cases "attempt_get cfg net q w")
  have x: "x = Inl ()" using h attempt_get_failure(1)[where net=net and w=w and q=q and cfg=cfg] assms(1) by simp
  show ?thesis using x h assms(2) by (subst rate_limited_loop.simps) simp
qed

lemma rate_limited_loop_success:
  assumes "fst (net (served w) q) = Response s b" and "\<not> raise_for_status s"
    and "a \<le> MAX_RETRIES cfg"
  shows "rate_limited_loop cfg net q a w = (Returned (s, b), snd (attempt_get cfg net q w))"
proof -
  obtain x w1 where h: "attempt_get cfg net q w = (x, w1)" by (cases "attempt_get cfg net q w")
  have x: "x = Inr (s, b)" using h attempt_get_success(1)[where net=net and w=w and q=q and cfg=cfg and s=s and b=b] assms(1,2) by simp
  show ?thesis using x h assms(3) by (subst rate_limited_loop.simps) simp
qed

lemma rate_limited_loop_k_failures:
  assumes "\<forall>i<k. http_failure (fst (net (served w + i) q))" and "1 \<le> a"
    and "a + k \<le> MAX_RETRIES cfg" and "0 \<le> BACKOFF_FACTOR cfg"
  shows "\<exists>w'. rate_limited_loop cfg net q a w = rate_limited_loop cfg net q (a + k) w' \<and>
             served w' = served w + k \<and>
             LAST_REQUEST_TIME w' = LAST_REQUEST_TIME w \<and>
             length (sent (events w')) = length (sent (events w)) + k \<and>
             sleeps Backoff (events w') =
               sleeps Backoff (events w) @ map (sa_backoff cfg) [a - 1..<a + k - 1]"
  using assms(1,2,3)
proof (induction k arbitrary: a w)
  case 0
  show ?case by (rule exI[of _ w]) simp
next
  case (Suc k)
  from Suc.prems(1) have f: "http_failure (fst (net (served w) q))" by force
  let ?w1 = "snd (attempt_get cfg net q w)"
  let ?w2 = "sleep Backoff (sa_backoff cfg (a - 1)) ?w1"
  note af = attempt_get_failure[where net=net and w=w and q=q and cfg=cfg, OF f]
  have sv: "served ?w2 = Suc (served w)" using af(3) by (simp add: sleep_def)
  have ls: "LAST_REQUEST_TIME ?w2 = LAST_REQUEST_TIME w" using af(2) by (simp add: sleep_def)
  have step: "rate_limited_loop cfg net q a w = rate_limited_loop cfg net q (Suc a) ?w2"
    using rate_limited_loop_failure[where net=net and w=w and q=q and cfg=cfg and a=a] f assms(4)
      Suc.prems(3) by (simp add: sa_backoff_def)
  have "\<forall>i<k. http_failure (fst (net (served ?w2 + i) q))"
    using Suc.prems(1) sv by (metis Suc_less_eq add_Suc_shift)
  from Suc.IH[OF this, of "Suc a"] Suc.prems(3)
  obtain w' where w': "rate_limited_loop cfg net q (Suc a) ?w2
               = rate_limited_loop cfg net q (Suc a + k) w'"
      "served w' = served ?w2 + k"
      "LAST_REQUEST_TIME w' = LAST_REQUEST_TIME ?w2"
      "length (sent (events w')) = length (sent (events ?w2)) + k"
      "sleeps Backoff (events w') =
               sleeps Backoff (events ?w2) @ map (sa_backoff cfg) [Suc a - 1..<Suc a + k - 1]"
    by auto
  have upt: "[a - 1..<a + Suc k - 1] = (a - 1) # [Suc a - 1..<Suc a + k - 1]"
    using Suc.prems(2) by (simp add: upt_conv_Cons)
  show ?case
    apply (rule exI[of _ w'])
    using step w' sv ls upt af(4,5)
    by (simp add: sleep_sent sleep_sleeps)
qed

subsection \<open>Fear and Greed helper\<close>

lemma http_get_json_loop_failure:
  assumes "fng_caught (fst (net (served w) q))" and "Suc a < r" and "0 \<le> backoff"
  shows "http_get_json_loop net q r backoff a e w =
           http_get_json_loop net q r backoff (Suc a) True
             (sleep Backoff (backoff ^ a) (snd (http_get net q w)))"
proof -
  obtain rr w1 where h: "http_get net q w = (rr, w1)" by (cases "http_get net q w")
  have rr: "try_once rr = Caught" using h assms(1) http_get_fst[of net q w] by (simp add: fng_caught_def)
  show ?thesis using rr h assms(2,3)
    by (subst http_get_json_loop.simps) (simp add: Let_def not_less)
qed

lemma http_get_json_loop_failure_last:
  assumes "fng_caught (fst (net (served w) q))" and "Suc a = r"
  shows "http_get_json_loop net q r backoff a e w = (Raised RuntimeError, snd (http_get net q w))"
proof -
  obtain rr w1 where h: "http_get net q w = (rr, w1)" by (cases "http_get net q w")
  have rr: "try_once rr = Caught" using h assms(1) http_get_fst[of net q w] by (simp add: fng_caught_def)
  show ?thesis using rr h assms(2)
    by (subst http_get_json_loop.simps) auto
qed

lemma http_get_json_loop_success:
  assumes "fst (net (served w) q) = Response 200 (Text (Some j))" and "a < r"
  shows "http_get_json_loop net q r backoff a e w = (Returned j, snd (http_get net q w))"
proof -
  obtain rr w1 where h: "http_get net q w = (rr, w1)" by (cases "http_get net q w")
  have rr: "rr = Response 200 (Text (Some j))" using h assms(1) http_get_fst[of net q w] by simp
  show ?thesis using rr h assms(2)
    by (subst http_get_json_loop.simps) (simp add: try_once_def)
qed

lemma http_get_json_loop_escape:
  assumes "try_once (fst (net (served w) q)) = Escaped x" and "a < r"
  shows "http_get_json_loop net q r backoff a e w = (Raised x, snd (http_get net q w))"
proof -
  obtain rr w1 where h: "http_get net q w = (rr, w1)" by (cases "http_get net q w")
  have rr: "try_once rr = Escaped x" using h assms(1) http_get_fst[of net q w] by simp
  show ?thesis using rr h assms(2)
    by (subst http_get_json_loop.simps) simp
qed

lemma http_get_json_loop_k_failures:
  assumes "\<forall>i<k. fng_caught (fst (net (served w + i) q))" and "a + k < r" and "0 \<le> backoff"
  shows "\<exists>w' e'. http_get_json_loop net q r backoff a e w
                  = http_get_json_loop net q r backoff (a + k) e' w' \<and>
             served w' = served w + k \<and>
             length (sent (events w')) = length (sent (events w)) + k \<and>
             sleeps Backoff (events w') =
               sleeps Backoff (events w) @ map (\<lambda>j. backoff ^ j) [a..<a + k]"
  using assms(1,2)
proof (induction k arbitrary: a w e)
  case 0
  show ?case by (rule exI[of _ w], rule exI[of _ e]) simp
next
  case (Suc k)
  from Suc.prems(1) have f: "fng_caught (fst (net (served w) q))" by force
  let ?w2 = "sleep Backoff (backoff ^ a) (snd (http_get net q w))"
  have sv: "served ?w2 = Suc (served w)" by (simp add: sleep_served http_get_served)
  have step: "http_get_json_loop net q r backoff a e w
      = http_get_json_loop net q r backoff (Suc a) True ?w2"
    using http_get_json_loop_failure[where net=net and w=w and q=q and a=a and r=r and e=e
        and backoff=backoff] f assms(3) Suc.prems(2) by simp
  have "\<forall>i<k. fng_caught (fst (net (served ?w2 + i) q))"
    using Suc.prems(1) sv by (metis Suc_less_eq add_Suc_shift)
  from Suc.IH[OF this, of "Suc a" True] Suc.prems(2)
  obtain w' e' where w': "http_get_json_loop net q r backoff (Suc a) True ?w2
               = http_get_json_loop net q r backoff (Suc a + k) e' w'"
      "served w' = served ?w2 + k"
      "length (sent (events w')) = length (sent (events ?w2)) + k"
      "sleeps Backoff (events w') =
               sleeps Backoff (events ?w2) @ map (\<lambda>j. backoff ^ j) [Suc a..<Suc a + k]"
    by auto
  have upt: "[a..<a + Suc k] = a # [Suc a..<Suc a + k]"
    by (simp add: upt_conv_Cons)
  show ?case
    apply (rule exI[of _ w'], rule exI[of _ e'])
    using step w' sv upt
    by (simp add: sleep_sent sleep_sleeps http_get_sent http_get_sleeps)
qed

lemma capped_geometric_av: "capped_geometric 15 2 120 n = map av_backoff [0..<n]"
  by (simp add: capped_geometric_def av_backoff_def)

lemma geometric_sa: "geometric (BACKOFF_FACTOR cfg) 2 n = map (sa_backoff cfg) [0..<n]"
  by (simp add: geometric_def sa_backoff_def)

lemma sorted_capped_geometric:
  assumes "0 \<le> base" and "1 \<le> mult"
  shows "sorted (capped_geometric base mult cap n)"
proof -
  have "mono (\<lambda>k. min (base * mult ^ k) cap)"
  proof (rule monoI)
    fix i j :: nat assume "i \<le> j"
    then have "mult ^ i \<le> mult ^ j" using assms(2) by (rule power_increasing)
    then have "base * mult ^ i \<le> base * mult ^ j" using assms(1) by (rule mult_left_mono)
    then show "min (base * mult ^ i) cap \<le> min (base * mult ^ j) cap" by (simp add: min_def)
  qed
  then show ?thesis unfolding capped_geometric_def
    by (simp add: sorted_map mono_def sorted_wrt_iff_nth_less)
qed

lemma sorted_geometric:
  assumes "0 \<le> base" and "1 \<le> mult"
  shows "sorted (geometric base mult n)"
proof -
  have "\<And>i j. i \<le> j \<Longrightarrow> base * mult ^ i \<le> base * mult ^ j"
    using assms by (simp add: mult_left_mono power_increasing)
  then show ?thesis unfolding geometric_def
    by (simp add: sorted_map sorted_wrt_iff_nth_less)
qed

lemma request_with_retries_all_throttled:
  assumes "\<forall>n. av_throttled (fst (net n q))" and "1 \<le> r"
  shows "case request_with_retries net q r w of (res, w') \<Rightarrow>
           res = Raised (AlphaVantageError (RateLimited r)) \<and>
           length (sent (events w')) = length (sent (events w)) + r \<and>
           sleeps Backoff (events w') = sleeps Backoff (events w) @ capped_geometric 15 2 120 (r - 1)"
proof -
  have a: "\<forall>i<r - 1. av_throttled (fst (net (served w + i) q))" using assms(1) by simp
  from request_loop_k_throttled[where k="r - 1" and a=1 and r=r and net=net and w=w and q=q] a assms(2)
  obtain w' where w': "request_loop r net q 1 (av_backoff 0) w = request_loop r net q r (av_backoff (r - 1)) w'"
     "served w' = served w + (r - 1)"
     "length (sent (events w')) = length (sent (events w)) + (r - 1)"
     "sleeps Backoff (events w') = sleeps Backoff (events w) @ map av_backoff [0..<r - 1]"
    by auto
  have "av_throttled (fst (net (served w') q))" using assms(1) by simp
  then obtain s p where rep: "fst (net (served w') q) = Response s (Some (JObj p))" and t: "throttled p"
    by (auto elim: av_throttledE)
  have last: "request_loop r net q r (av_backoff (r - 1)) w'
      = (Raised (AlphaVantageError (RateLimited r)), snd (http_get net q w'))"
    using request_loop_throttled_last[where net=net and w=w' and q=q and s=s and p=p and a=r and r=r] rep t
    by simp
  have b0: "av_backoff 0 = 15" by (simp add: av_backoff_def)
  show ?thesis
    using w'[unfolded b0] last assms(2)
    by (simp add: request_with_retries_def capped_geometric_av http_get_sent http_get_sleeps)
qed

lemma rate_limited_get_all_fail:
  assumes "\<forall>n. http_failure (fst (net n q))" and "1 \<le> MAX_RETRIES cfg" and "0 \<le> BACKOFF_FACTOR cfg"
  shows "case rate_limited_get cfg net q w of (res, w') \<Rightarrow>
           res = Raised RequestException \<and>
           length (sent (events w')) = length (sent (events w)) + MAX_RETRIES cfg \<and>
           sleeps Backoff (events w') =
             sleeps Backoff (events w) @ geometric (BACKOFF_FACTOR cfg) 2 (MAX_RETRIES cfg - 1)"
proof -
  let ?r = "MAX_RETRIES cfg"
  have a: "\<forall>i<?r - 1. http_failure (fst (net (served w + i) q))" using assms(1) by simp
  from rate_limited_loop_k_failures[where k="?r - 1" and a=1 and cfg=cfg and net=net and w=w and q=q]
    a assms(2,3)
  obtain w' where w': "rate_limited_loop cfg net q 1 w = rate_limited_loop cfg net q ?r w'"
     "length (sent (events w')) = length (sent (events w)) + (?r - 1)"
     "sleeps Backoff (events w') = sleeps Backoff (events w) @ map (sa_backoff cfg) [0..<?r - 1]"
    by auto
  have f: "http_failure (fst (net (served w') q))" using assms(1) by simp
  have last: "rate_limited_loop cfg net q ?r w' = (Raised RequestException, snd (attempt_get cfg net q w'))"
    using rate_limited_loop_failure_last[where net=net and w=w' and q=q and a="?r" and cfg=cfg] f by simp
  note af = attempt_get_failure[where net=net and w=w' and q=q and cfg=cfg, OF f]
  show ?thesis
    using w' last assms(2) af(4,5)
    by (simp add: rate_limited_get_def geometric_sa)
qed

lemma http_get_json_all_fail:
  assumes "\<forall>n. fng_caught (fst (net n q))" and "1 \<le> r" and "0 \<le> backoff"
  shows "case http_get_json net q r backoff w of (res, w') \<Rightarrow>
           res = Raised RuntimeError \<and>
           length (sent (events w')) = length (sent (events w)) + r \<and>
           sleeps Backoff (events w') = sleeps Backoff (events w) @ geometric 1 backoff (r - 1)"
proof -
  have a: "\<forall>i<r - 1. fng_caught (fst (net (served w + i) q))" using assms(1) by simp
  from http_get_json_loop_k_failures[where k="r - 1" and a=0 and r=r and net=net and w=w and q=q
      and backoff=backoff and e=False] a assms(2,3)
  obtain w' e' where w': "http_get_json_loop net q r backoff 0 False w
        = http_get_json_loop net q r backoff (r - 1) e' w'"
     "length (sent (events w')) = length (sent (events w)) + (r - 1)"
     "sleeps Backoff (events w') = sleeps Backoff (events w) @ map (\<lambda>j. backoff ^ j) [0..<r - 1]"
    by auto
  have f: "fng_caught (fst (net (served w') q))" using assms(1) by simp
  have last: "http_get_json_loop net q r backoff (r - 1) e' w' = (Raised RuntimeError, snd (http_get net q w'))"
    using http_get_json_loop_failure_last[where net=net and w=w' and q=q and a="r - 1" and r=r] f assms(2)
    by simp
  show ?thesis
    using w' last assms(2)
    by (simp add: http_get_json_def geometric_def http_get_sent http_get_sleeps)
qed

text \<open>
  C1, as amended.  For a retry cap \<open>r \<ge> 1\<close> and a fetch whose every attempt fails, each
  helper makes exactly \<open>r\<close> requests and then raises, and the backoff delays slept between
  the attempts are the first \<open>r - 1\<close> terms of a non-decreasing geometric sequence:
  \<^item> \<open>_request_with_retries\<close> (Alpha Vantage), every response carrying the throttling
    signal: base 15, multiplier 2, every delay capped at 120;
  \<^item> \<open>_rate_limited_get\<close> (Seeking Alpha), every request ending in a network error or an
    HTTP error status: base \<open>BACKOFF_FACTOR \<ge> 0\<close>, multiplier 2, no cap;
  \<^item> \<open>_http_get_json\<close> (Fear and Greed), every request ending in an error its \<open>except\<close>
    clause names (\<open>HTTPError\<close>, also for a status other than 200, \<open>URLError\<close>,
    \<open>TimeoutError\<close>, \<open>JSONDecodeError\<close>): base 1, multiplier \<open>backoff\<close> (non-decreasing
    when \<open>backoff \<ge> 1\<close>), no cap.
\<close>

theorem retry_attempts_and_backoff:
  assumes "1 \<le> r"
  shows "((\<forall>n. av_throttled (fst (net_av n q_av))) \<longrightarrow>
           (case request_with_retries net_av q_av r w_av of (res, w') \<Rightarrow>
              res = Raised (AlphaVantageError (RateLimited r)) \<and>
              length (sent (events w')) = length (sent (events w_av)) + r \<and>
              sleeps Backoff (events w') =
                sleeps Backoff (events w_av) @ capped_geometric 15 2 120 (r - 1)))
       \<and> ((\<forall>n. http_failure (fst (net_sa n q_sa))) \<and> MAX_RETRIES cfg = r \<and> 0 \<le> BACKOFF_FACTOR cfg \<longrightarrow>
           (case rate_limited_get cfg net_sa q_sa w_sa of (res, w') \<Rightarrow>
              res = Raised RequestException \<and>
              length (sent (events w')) = length (sent (events w_sa)) + r \<and>
              sleeps Backoff (events w') =
                sleeps Backoff (events w_sa) @ geometric (BACKOFF_FACTOR cfg) 2 (r - 1)))
       \<and> ((\<forall>n. fng_caught (fst (net_fg n q_fg))) \<and> 0 \<le> backoff \<longrightarrow>
           (case http_get_json net_fg q_fg r backoff w_fg of (res, w') \<Rightarrow>
              res = Raised RuntimeError \<and>
              length (sent (events w')) = length (sent (events w_fg)) + r \<and>
              sleeps Backoff (events w') =
                sleeps Backoff (events w_fg) @ geometric 1 backoff (r - 1)))
       \<and> sorted (capped_geometric 15 2 120 (r - 1))
       \<and> (0 \<le> BACKOFF_FACTOR cfg \<longrightarrow> sorted (geometric (BACKOFF_FACTOR cfg) 2 (r - 1)))
       \<and> (1 \<le> backoff \<longrightarrow> sorted (geometric 1 backoff (r - 1)))"
proof (intro conjI impI)
  assume "\<forall>n. av_throttled (fst (net_av n q_av))"
  then show "case request_with_retries net_av q_av r w_av of (res, w') \<Rightarrow>
              res = Raised (AlphaVantageError (RateLimited r)) \<and>
              length (sent (events w')) = length (sent (events w_av)) + r \<and>
              sleeps Backoff (events w') =
                sleeps Backoff (events w_av) @ capped_geometric 15 2 120 (r - 1)"
    using assms by (rule request_with_retries_all_throttled)
next
  assume a: "(\<forall>n. http_failure (fst (net_sa n q_sa))) \<and> MAX_RETRIES cfg = r \<and> 0 \<le> BACKOFF_FACTOR cfg"
  show "case rate_limited_get cfg net_sa q_sa w_sa of (res, w') \<Rightarrow>
              res = Raised RequestException \<and>
              length (sent (events w')) = length (sent (events w_sa)) + r \<and>
              sleeps Backoff (events w') =
                sleeps Backoff (events w_sa) @ geometric (BACKOFF_FACTOR cfg) 2 (r - 1)"
    using rate_limited_get_all_fail[where net=net_sa and q=q_sa and cfg=cfg and w=w_sa] a assms
    by simp
next
  assume a: "(\<forall>n. fng_caught (fst (net_fg n q_fg))) \<and> 0 \<le> backoff"
  show "case http_get_json net_fg q_fg r backoff w_fg of (res, w') \<Rightarrow>
              res = Raised RuntimeError \<and>
              length (sent (events w')) = length (sent (events w_fg)) + r \<and>
              sleeps Backoff (events w') =
                sleeps Backoff (events w_fg) @ geometric 1 backoff (r - 1)"
    using http_get_json_all_fail[where net=net_fg and q=q_fg and r=r and backoff=backoff and w=w_fg]
      a assms by simp
next
  show "sorted (capped_geometric 15 2 120 (r - 1))" by (simp add: sorted_capped_geometric)
next
  assume "0 \<le> BACKOFF_FACTOR cfg"
  then show "sorted (geometric (BACKOFF_FACTOR cfg) 2 (r - 1))" by (simp add: sorted_geometric)
next
  assume "1 \<le> backoff"
  then show "sorted (geometric 1 backoff (r - 1))" by (simp add: sorted_geometric)
qed


theorem retry_attempts_and_backoff_witness:
  "(case request_with_retries (\<lambda>n q. (Response 200 (Some (JObj [(''Note'', JStr ''limit'')])), 1))
          ''NVDA'' 6 (boot 0) of (res, w') \<Rightarrow>
      res = Raised (AlphaVantageError (RateLimited 6)) \<and>
      length (sent (events w')) = 6 \<and>
      sleeps Backoff (events w') = [15, 30, 60, 120, 120])
   \<and> (case rate_limited_get sa_config (\<lambda>n q. (Response 503 (), 1)) ''NVDA'' (sa_boot 0) of (res, w') \<Rightarrow>
      res = Raised RequestException \<and>
      length (sent (events w')) = 3 \<and>
      sleeps Backoff (events w') = [2, 4])
   \<and> (case http_get_json (\<lambda>n q. (NetworkError, 1)) ''fng'' 3 (8 / 5) (boot 0) of (res, w') \<Rightarrow>
      res = Raised RuntimeError \<and>
      length (sent (events w')) = 3 \<and>
      sleeps Backoff (events w') = [1, 8 / 5])"
proof -
  let ?av = "\<lambda>(n::nat) (q::string). (Response 200 (Some (JObj [(''Note'', JStr ''limit'')])), 1::rat)"
  let ?sa = "\<lambda>(n::nat) (q::string). (Response 503 (), 1::rat)"
  let ?fg = "\<lambda>(n::nat) (q::string). (NetworkError :: url_body reply, 1::rat)"
  have av: "\<forall>n. av_throttled (fst (?av n ''NVDA''))"
    by (simp add: throttled_def dict_get_def truthy_opt_def py_or_def)
  have sa: "(\<forall>n. http_failure (fst (?sa n ''NVDA''))) \<and> MAX_RETRIES sa_config = 3
      \<and> 0 \<le> BACKOFF_FACTOR sa_config"
    by (simp add: raise_for_status_def sa_config_def)
  have fg: "(\<forall>n. fng_caught (fst (?fg n ''fng''))) \<and> (0::rat) \<le> 8 / 5"
    by (simp add: fng_caught_def try_once_def)
  have g5: "capped_geometric 15 2 120 (6 - 1) = [15, 30, 60, 120, 120]"
    by (simp add: capped_geometric_def upt_rec)
  have g2: "geometric (BACKOFF_FACTOR sa_config) 2 (3 - 1) = [2, 4]"
      "geometric 1 (8 / 5) (3 - 1) = [1, 8 / 5]"
    by (simp_all add: geometric_def upt_rec sa_config_def)
  have one: "(1::nat) \<le> 6" "(1::nat) \<le> 3" by simp_all
  have a: "case request_with_retries ?av ''NVDA'' 6 (boot 0) of (res, w') \<Rightarrow>
      res = Raised (AlphaVantageError (RateLimited 6)) \<and>
      length (sent (events w')) = length (sent (events (boot 0 :: string world))) + 6 \<and>
      sleeps Backoff (events w') = sleeps Backoff (events (boot 0 :: string world)) @ capped_geometric 15 2 120 (6 - 1)"
    using retry_attempts_and_backoff[OF one(1), where net_av="?av" and q_av="''NVDA''"
      and w_av="boot 0", THEN conjunct1] av by simp
  have b: "case rate_limited_get sa_config ?sa ''NVDA'' (sa_boot 0) of (res, w') \<Rightarrow>
      res = Raised RequestException \<and>
      length (sent (events w')) = length (sent (events (sa_boot 0 :: string sa_state))) + 3 \<and>
      sleeps Backoff (events w') = sleeps Backoff (events (sa_boot 0 :: string sa_state)) @ geometric (BACKOFF_FACTOR sa_config) 2 (3 - 1)"
    using retry_attempts_and_backoff[OF one(2), where net_sa="?sa" and q_sa="''NVDA''"
      and w_sa="sa_boot 0" and cfg=sa_config, THEN conjunct2, THEN conjunct1] sa by simp
  have c: "case http_get_json ?fg ''fng'' 3 (8 / 5) (boot 0) of (res, w') \<Rightarrow>
      res = Raised RuntimeError \<and>
      length (sent (events w')) = length (sent (events (boot 0 :: string world))) + 3 \<and>
      sleeps Backoff (events w') = sleeps Backoff (events (boot 0 :: string world)) @ geometric 1 (8 / 5) (3 - 1)"
    using retry_attempts_and_backoff[OF one(2), where net_fg="?fg" and q_fg="''fng''"
      and w_fg="boot 0" and backoff="8 / 5", THEN conjunct2, THEN conjunct2, THEN conjunct1] fg
    by simp
  show ?thesis
    using a b c unfolding g5 g2 by (simp add: boot_def sa_boot_def)
qed

text \<open>
  The claim as it was stated fails three times.  A request of the Alpha Vantage helper that
  raises is not retried: with a cap of 6 and every request erroring, one request is made.
  The delays of the Seeking Alpha helper are not capped: no bound holds for all retry
  caps.  And an error of the Fear and Greed helper that its \<open>except\<close> clause does not name
  is not retried: with 3 retries and every reply a body that is not UTF-8
  (\<open>UnicodeDecodeError\<close>, a \<open>ValueError\<close>), one request is made.
\<close>

lemma sa_backoff_unbounded:
  "\<not> (\<exists>cap. \<forall>r\<ge>1. \<forall>d \<in> set (sleeps Backoff (events (snd
        (rate_limited_get (sa_config\<lparr>MAX_RETRIES := r\<rparr>)
           (\<lambda>n q. (NetworkError :: unit reply, 1)) ''NVDA'' (sa_boot 0))))). d \<le> cap)"
proof
  assume "\<exists>cap. \<forall>r\<ge>1. \<forall>d \<in> set (sleeps Backoff (events (snd
        (rate_limited_get (sa_config\<lparr>MAX_RETRIES := r\<rparr>)
           (\<lambda>n q. (NetworkError :: unit reply, 1)) ''NVDA'' (sa_boot 0))))). d \<le> cap"
  then obtain cap :: rat where cap: "\<And>r d. 1 \<le> r \<Longrightarrow> d \<in> set (sleeps Backoff (events (snd
        (rate_limited_get (sa_config\<lparr>MAX_RETRIES := r\<rparr>)
           (\<lambda>n q. (NetworkError :: unit reply, 1)) ''NVDA'' (sa_boot 0))))) \<Longrightarrow> d \<le> cap"
    by blast
  define k where "k = nat \<lceil>cap\<rceil>"
  let ?cfg = "sa_config\<lparr>MAX_RETRIES := Suc (Suc k)\<rparr>"
  let ?net = "\<lambda>(n::nat) (q::string). (NetworkError :: unit reply, 1::rat)"
  have hyp: "\<forall>n. http_failure (fst (?net n ''NVDA''))" by simp
  have h2: "1 \<le> MAX_RETRIES ?cfg" "0 \<le> BACKOFF_FACTOR ?cfg" by (simp_all add: sa_config_def)
  have "case rate_limited_get ?cfg ?net ''NVDA'' (sa_boot 0) of (res, w') \<Rightarrow>
           res = Raised RequestException \<and>
           length (sent (events w')) = length (sent (events (sa_boot 0 :: string sa_state))) + MAX_RETRIES ?cfg \<and>
           sleeps Backoff (events w') =
             sleeps Backoff (events (sa_boot 0 :: string sa_state)) @ geometric (BACKOFF_FACTOR ?cfg) 2 (MAX_RETRIES ?cfg - 1)"
    using hyp h2 by (rule rate_limited_get_all_fail)
  then have sl: "sleeps Backoff (events (snd (rate_limited_get ?cfg ?net ''NVDA'' (sa_boot 0))))
      = geometric 2 2 (Suc k)"
    by (simp add: sa_boot_def sa_config_def split: prod.splits)
  have "2 * 2 ^ k \<in> set (geometric 2 2 (Suc k))"
    by (simp add: geometric_def)
  then have "(2::rat) * 2 ^ k \<le> cap" using cap[of "Suc (Suc k)" "2 * 2 ^ k"] sl by simp
  moreover have "cap \<le> of_nat k" unfolding k_def by (rule of_nat_ceiling)
  moreover have "(of_nat k :: rat) < 2 ^ k" by (rule of_nat_less_two_power)
  moreover have "(2::rat) ^ k \<le> 2 * 2 ^ k" by simp
  ultimately show False by linarith
qed

theorem retry_attempts_and_backoff_counterexample:
  "(case request_with_retries (\<lambda>n q. (NetworkError, 1)) ''NVDA'' 6 (boot 0) of (res, w') \<Rightarrow>
      res = Raised RequestException \<and> length (sent (events w')) = 1)
   \<and> \<not> (\<exists>cap. \<forall>r\<ge>1. \<forall>d \<in> set (sleeps Backoff (events (snd
        (rate_limited_get (sa_config\<lparr>MAX_RETRIES := r\<rparr>)
           (\<lambda>n q. (NetworkError :: unit reply, 1)) ''NVDA'' (sa_boot 0))))). d \<le> cap)
   \<and> (case http_get_json (\<lambda>n q. (Response 200 (Unread ValueError), 1)) ''fng'' 3 (8 / 5) (boot 0) of
        (res, w') \<Rightarrow> res = Raised ValueError \<and> length (sent (events w')) = 1)"
proof (intro conjI)
  show "case request_with_retries (\<lambda>n q. (NetworkError, 1)) ''NVDA'' 6 (boot 0) of (res, w') \<Rightarrow>
      res = Raised RequestException \<and> length (sent (events w')) = 1"
    by (simp add: request_with_retries_def request_loop.simps http_get_def boot_def)
next
  show "\<not> (\<exists>cap. \<forall>r\<ge>1. \<forall>d \<in> set (sleeps Backoff (events (snd
        (rate_limited_get (sa_config\<lparr>MAX_RETRIES := r\<rparr>)
           (\<lambda>n q. (NetworkError :: unit reply, 1)) ''NVDA'' (sa_boot 0))))). d \<le> cap)"
    by (rule sa_backoff_unbounded)
next
  show "case http_get_json (\<lambda>n q. (Response 200 (Unread ValueError), 1)) ''fng'' 3 (8 / 5) (boot 0) of
        (res, w') \<Rightarrow> res = Raised ValueError \<and> length (sent (events w')) = 1"
    by (simp add: http_get_json_def http_get_json_loop.simps http_get_def boot_def try_once_def)
qed


section \<open>Which failures are retried\<close>

lemma request_with_retries_recovers:
  assumes "k < r" and "\<forall>i<k. av_throttled (fst (net (served w + i) q))"
    and "fst (net (served w + k) q) = Response s (Some (JObj p))"
    and "\<not> throttled p" and "''Error Message'' \<notin> fst ` set p"
  shows "case request_with_retries net q r w of (res, w') \<Rightarrow>
           res = Returned p \<and>
           length (sent (events w')) = length (sent (events w)) + Suc k \<and>
           sleeps Backoff (events w') = sleeps Backoff (events w) @ capped_geometric 15 2 120 k"
proof -
  from request_loop_k_throttled[where k=k and a=1 and r=r and net=net and w=w and q=q] assms(1,2)
  obtain w' where w': "request_loop r net q 1 (av_backoff 0) w = request_loop r net q (1 + k) (av_backoff k) w'"
     "served w' = served w + k"
     "length (sent (events w')) = length (sent (events w)) + k"
     "sleeps Backoff (events w') = sleeps Backoff (events w) @ map av_backoff [0..<k]"
    by auto
  have rep: "fst (net (served w') q) = Response s (Some (JObj p))" using assms(3) w'(2) by simp
  have last: "request_loop r net q (1 + k) (av_backoff k) w' = (Returned p, snd (http_get net q w'))"
    using request_loop_clean[where net=net and w=w' and q=q and s=s and p=p and a="1 + k" and r=r]
      rep assms(1,4,5) by simp
  have b0: "av_backoff 0 = 15" by (simp add: av_backoff_def)
  show ?thesis
    using w'[unfolded b0] last
    by (simp add: request_with_retries_def capped_geometric_av http_get_sent http_get_sleeps)
qed

lemma rate_limited_get_recovers:
  assumes "k < MAX_RETRIES cfg" and "0 \<le> BACKOFF_FACTOR cfg"
    and "\<forall>i<k. http_failure (fst (net (served w + i) q))"
    and "fst (net (served w + k) q) = Response s b" and "\<not> raise_for_status s"
  shows "case rate_limited_get cfg net q w of (res, w') \<Rightarrow>
           res = Returned (s, b) \<and>
           length (sent (events w')) = length (sent (events w)) + Suc k \<and>
           sleeps Backoff (events w') =
             sleeps Backoff (events w) @ geometric (BACKOFF_FACTOR cfg) 2 k"
proof -
  from rate_limited_loop_k_failures[where k=k and a=1 and cfg=cfg and net=net and w=w and q=q]
    assms(1,2,3)
  obtain w' where w': "rate_limited_loop cfg net q 1 w = rate_limited_loop cfg net q (1 + k) w'"
     "served w' = served w + k"
     "length (sent (events w')) = length (sent (events w)) + k"
     "sleeps Backoff (events w') = sleeps Backoff (events w) @ map (sa_backoff cfg) [0..<k]"
    by auto
  have rep: "fst (net (served w') q) = Response s b" using assms(4) w'(2) by simp
  have last: "rate_limited_loop cfg net q (1 + k) w' = (Returned (s, b), snd (attempt_get cfg net q w'))"
    using rate_limited_loop_success[where net=net and w=w' and q=q and s=s and b=b and a="1 + k"
        and cfg=cfg] rep assms(1,5) by simp
  note ok = attempt_get_success[where net=net and w=w' and q=q and cfg=cfg and s=s and b=b,
      OF rep assms(5)]
  show ?thesis
    using w' last ok(4,5)
    by (simp add: rate_limited_get_def geometric_sa)
qed

text \<open>
  C3, as amended.  Each helper retries the failures it recognises, up to its maximum
  number of attempts: when the first \<open>k < r\<close> attempts fail that way and the next one
  succeeds, the helper returns that response after \<open>k + 1\<close> requests and \<open>k\<close> backoff
  sleeps.  The Alpha Vantage helper recognises the throttling signal in the decoded body
  (a truthy \<open>Note\<close> or \<open>Information\<close> field) and nothing else; the Seeking Alpha helper
  recognises a network error and an HTTP error status (400 to 599) and nothing else.
\<close>

theorem retry_on_each_failure_kind:
  assumes "k < r"
  shows "((\<forall>i<k. av_throttled (fst (net_av (served w_av + i) q_av))) \<and>
          fst (net_av (served w_av + k) q_av) = Response s (Some (JObj p)) \<and>
          \<not> throttled p \<and> ''Error Message'' \<notin> fst ` set p \<longrightarrow>
          (case request_with_retries net_av q_av r w_av of (res, w') \<Rightarrow>
             res = Returned p \<and>
             length (sent (events w')) = length (sent (events w_av)) + Suc k \<and>
             sleeps Backoff (events w') =
               sleeps Backoff (events w_av) @ capped_geometric 15 2 120 k))
       \<and> ((\<forall>i<k. http_failure (fst (net_sa (served w_sa + i) q_sa))) \<and>
          MAX_RETRIES cfg = r \<and> 0 \<le> BACKOFF_FACTOR cfg \<and>
          fst (net_sa (served w_sa + k) q_sa) = Response s' b \<and> \<not> raise_for_status s' \<longrightarrow>
          (case rate_limited_get cfg net_sa q_sa w_sa of (res, w') \<Rightarrow>
             res = Returned (s', b) \<and>
             length (sent (events w')) = length (sent (events w_sa)) + Suc k \<and>
             sleeps Backoff (events w') =
               sleeps Backoff (events w_sa) @ geometric (BACKOFF_FACTOR cfg) 2 k))"
proof (intro conjI impI)
  assume a: "(\<forall>i<k. av_throttled (fst (net_av (served w_av + i) q_av))) \<and>
          fst (net_av (served w_av + k) q_av) = Response s (Some (JObj p)) \<and>
          \<not> throttled p \<and> ''Error Message'' \<notin> fst ` set p"
  show "case request_with_retries net_av q_av r w_av of (res, w') \<Rightarrow>
             res = Returned p \<and>
             length (sent (events w')) = length (sent (events w_av)) + Suc k \<and>
             sleeps Backoff (events w') =
               sleeps Backoff (events w_av) @ capped_geometric 15 2 120 k"
    by (rule request_with_retries_recovers[where s=s and p=p]) (use assms a in simp_all)
next
  assume a: "(\<forall>i<k. http_failure (fst (net_sa (served w_sa + i) q_sa))) \<and>
          MAX_RETRIES cfg = r \<and> 0 \<le> BACKOFF_FACTOR cfg \<and>
          fst (net_sa (served w_sa + k) q_sa) = Response s' b \<and> \<not> raise_for_status s'"
  show "case rate_limited_get cfg net_sa q_sa w_sa of (res, w') \<Rightarrow>
             res = Returned (s', b) \<and>
             length (sent (events w')) = length (sent (events w_sa)) + Suc k \<and>
             sleeps Backoff (events w') =
               sleeps Backoff (events w_sa) @ geometric (BACKOFF_FACTOR cfg) 2 k"
    by (rule rate_limited_get_recovers[where s=s' and b=b]) (use assms a in simp_all)
qed

theorem retry_on_each_failure_kind_witness:
  "(case request_with_retries flaky_av ''INFLATION'' 6 (boot 0) of (res, w') \<Rightarrow>
      res = Returned [(''data'', JArr [])] \<and>
      length (sent (events w')) = 3 \<and>
      sleeps Backoff (events w') = [15, 30])
   \<and> (case rate_limited_get sa_config flaky_sa ''NVDA'' (sa_boot 0) of (res, w') \<Rightarrow>
      res = Returned (200, ''page'') \<and>
      length (sent (events w')) = 3 \<and>
      sleeps Backoff (events w') = [2, 4])"
proof -
  have k: "(2::nat) < 6" "(2::nat) < 3" by simp_all
  have av: "(\<forall>i<2. av_throttled (fst (flaky_av (served (boot 0 :: string world) + i) ''INFLATION''))) \<and>
          fst (flaky_av (served (boot 0 :: string world) + 2) ''INFLATION'')
             = Response 200 (Some (JObj [(''data'', JArr [])])) \<and>
          \<not> throttled [(''data'', JArr [])] \<and> ''Error Message'' \<notin> fst ` set [(''data'', JArr [])]"
    by (simp add: flaky_av_def boot_def throttled_def dict_get_def truthy_opt_def py_or_def)
  have sa: "(\<forall>i<2. http_failure (fst (flaky_sa (served (sa_boot 0 :: string sa_state) + i) ''NVDA''))) \<and>
          MAX_RETRIES sa_config = 3 \<and> 0 \<le> BACKOFF_FACTOR sa_config \<and>
          fst (flaky_sa (served (sa_boot 0 :: string sa_state) + 2) ''NVDA'') = Response 200 ''page'' \<and>
          \<not> raise_for_status 200"
    by (simp add: flaky_sa_def sa_boot_def sa_config_def raise_for_status_def less_Suc_eq numeral_2_eq_2)
  have g: "capped_geometric 15 2 120 2 = [15, 30]" "geometric (BACKOFF_FACTOR sa_config) 2 2 = [2, 4]"
    by (simp_all add: capped_geometric_def geometric_def upt_rec sa_config_def)
  have a: "case request_with_retries flaky_av ''INFLATION'' 6 (boot 0) of (res, w') \<Rightarrow>
             res = Returned [(''data'', JArr [])] \<and>
             length (sent (events w')) = length (sent (events (boot 0 :: string world))) + Suc 2 \<and>
             sleeps Backoff (events w') =
               sleeps Backoff (events (boot 0 :: string world)) @ capped_geometric 15 2 120 2"
    using retry_on_each_failure_kind[OF k(1), where net_av=flaky_av and q_av="''INFLATION''"
        and w_av="boot 0" and s=200 and p="[(''data'', JArr [])]", THEN conjunct1] av
    by (rule mp)
  have b: "case rate_limited_get sa_config flaky_sa ''NVDA'' (sa_boot 0) of (res, w') \<Rightarrow>
             res = Returned (200, ''page'') \<and>
             length (sent (events w')) = length (sent (events (sa_boot 0 :: string sa_state))) + Suc 2 \<and>
             sleeps Backoff (events w') =
               sleeps Backoff (events (sa_boot 0 :: string sa_state)) @ geometric (BACKOFF_FACTOR sa_config) 2 2"
    using retry_on_each_failure_kind[OF k(2), where net_sa=flaky_sa and q_sa="''NVDA''"
        and w_sa="sa_boot 0" and cfg=sa_config and s'=200 and b="''page''", THEN conjunct2] sa
    by (rule mp)
  show ?thesis using a b unfolding g by (simp add: boot_def sa_boot_def)
qed

text \<open>
  The claim as it was stated fails: the Seeking Alpha helper returns a 200 response whose
  body carries a \<open>Note\<close> field as a success; the Alpha Vantage helper lets a network error
  leave after one request, and returns the payload of a 503 response without a retry.
\<close>

theorem retry_on_each_failure_kind_counterexample:
  "(case rate_limited_get sa_config
           (\<lambda>n q. (Response 200 (JObj [(''Note'', JStr ''slow down'')]), 1)) ''NVDA'' (sa_boot 0)
    of (res, w') \<Rightarrow>
      res = Returned (200, JObj [(''Note'', JStr ''slow down'')]) \<and> length (sent (events w')) = 1)
   \<and> (case request_with_retries (\<lambda>n q. (NetworkError, 1)) ''NVDA'' 6 (boot 0) of (res, w') \<Rightarrow>
      res = Raised RequestException \<and> length (sent (events w')) = 1)
   \<and> (case request_with_retries (\<lambda>n q. (Response 503 (Some (JObj [(''detail'', JStr ''busy'')])), 1))
           ''NVDA'' 6 (boot 0) of (res, w') \<Rightarrow>
      res = Returned [(''detail'', JStr ''busy'')] \<and> length (sent (events w')) = 1)"
  by (simp add: rate_limited_get_def rate_limited_loop.simps attempt_get_def
      request_with_retries_def request_loop.simps http_get_def sleep_def boot_def sa_boot_def
      sa_config_def raise_for_status_def throttled_def dict_get_def truthy_opt_def py_or_def)


section \<open>The spacing between requests\<close>

text \<open>
  C2.  With the constants of the module (spacing 2 s, three attempts, backoff factor 2): a
  call whose three attempts fail leaves the marker where it was, so the first request of
  the next call starts at once, 0 s after the completion of the request before it.  The
  comment in the source says the spacing is enforced between all HTTP requests.
\<close>

theorem spacing_lost_after_failed_call:
  "(case rate_limited_get sa_config three_failures_then_page ''/article/1'' (sa_boot 100) of
      (res1, w1) \<Rightarrow>
        (case rate_limited_get sa_config three_failures_then_page ''/article/2'' w1 of
           (res2, w2) \<Rightarrow>
             res1 = Raised RequestException \<and>
             res2 = Returned (200, ''page'') \<and>
             sent (events w2) =
               [(''/article/1'', 100, 101), (''/article/1'', 103, 104),
                (''/article/1'', 108, 109), (''/article/2'', 109, 110)] \<and>
             gaps (sent (events w2)) = [2, 4, 0]))"
  by (simp add: rate_limited_get_def rate_limited_loop.simps attempt_get_def
      http_get_def sleep_def sa_boot_def sa_config_def raise_for_status_def
      three_failures_then_page_def)


section \<open>The shared marker of the Seeking Alpha module\<close>

lemma attempt_get_marker:
  "case attempt_get cfg net q w of
     (Inl u, w') \<Rightarrow> LAST_REQUEST_TIME w' = LAST_REQUEST_TIME w
   | (Inr resp, w') \<Rightarrow> LAST_REQUEST_TIME w' = clock w'"
proof -
  obtain r took where n: "net (served w) q = (r, took)" by (cases "net (served w) q")
  show ?thesis
    using n by (cases r; simp add: attempt_get_def http_get_def sleep_def Let_def)
qed

lemma rate_limited_loop_marker:
  "case rate_limited_loop cfg net q a w of
     (Returned resp, w') \<Rightarrow> LAST_REQUEST_TIME w' = clock w'
   | (ReturnedNone, w') \<Rightarrow> LAST_REQUEST_TIME w' = LAST_REQUEST_TIME w
   | (Raised e, w') \<Rightarrow> LAST_REQUEST_TIME w' = LAST_REQUEST_TIME w"
proof (induction cfg net q a w rule: rate_limited_loop.induct)
  case (1 cfg net q attempt w)
  obtain x w1 where h: "attempt_get cfg net q w = (x, w1)" by (cases "attempt_get cfg net q w")
  note m = attempt_get_marker[where cfg=cfg and net=net and q=q and w=w, unfolded h]
  show ?case
  proof (cases x)
    case (Inr resp)
    then show ?thesis using h m by (subst rate_limited_loop.simps) simp
  next
    case (Inl u)
    have keep: "LAST_REQUEST_TIME w1 = LAST_REQUEST_TIME w" using m Inl by simp
    show ?thesis
    proof (cases "attempt < MAX_RETRIES cfg \<and> \<not> BACKOFF_FACTOR cfg * 2 ^ (attempt - 1) < 0")
      case True
      let ?w2 = "sleep Backoff (BACKOFF_FACTOR cfg * 2 ^ (attempt - 1)) w1"
      have ih: "case rate_limited_loop cfg net q (Suc attempt) ?w2 of
          (Returned resp, w') \<Rightarrow> LAST_REQUEST_TIME w' = clock w'
        | (ReturnedNone, w') \<Rightarrow> LAST_REQUEST_TIME w' = LAST_REQUEST_TIME ?w2
        | (Raised e, w') \<Rightarrow> LAST_REQUEST_TIME w' = LAST_REQUEST_TIME ?w2"
        using "1.IH"[OF _ h[symmetric] Inl _ refl] True by simp
      have l2: "LAST_REQUEST_TIME ?w2 = LAST_REQUEST_TIME w" using keep by (simp add: sleep_def)
      have unf: "rate_limited_loop cfg net q attempt w = rate_limited_loop cfg net q (Suc attempt) ?w2"
        using True h Inl by (subst rate_limited_loop.simps) (simp add: Let_def)
      show ?thesis using ih unfolding unf l2 .
    next
      case False
      then show ?thesis using h Inl keep
        by (subst rate_limited_loop.simps) (auto simp: Let_def)
    qed
  qed
qed


text \<open>
  C4.  The marker \<open>_LAST_REQUEST_TIME\<close> is written only by an attempt that succeeds: an
  attempt that ends in the \<open>except\<close> clause leaves it as it was, a successful one sets it to
  the clock reading at the completion of its request; and so a call of the helper that
  raises (or falls out of the loop) leaves the marker unchanged, whatever number of
  attempts it made.  The wait before the next request is computed from the marker and the
  clock alone, so a failed attempt cannot shorten it.
\<close>

theorem marker_updated_only_on_success:
  "(case attempt_get cfg net q w of
      (Inl u, w') \<Rightarrow> LAST_REQUEST_TIME w' = LAST_REQUEST_TIME w
    | (Inr resp, w') \<Rightarrow> LAST_REQUEST_TIME w' = clock w')
   \<and> (case rate_limited_get cfg net q w of
      (Returned resp, w') \<Rightarrow> LAST_REQUEST_TIME w' = clock w'
    | (ReturnedNone, w') \<Rightarrow> LAST_REQUEST_TIME w' = LAST_REQUEST_TIME w
    | (Raised e, w') \<Rightarrow> LAST_REQUEST_TIME w' = LAST_REQUEST_TIME w)"
  unfolding rate_limited_get_def
  by (rule conjI, rule attempt_get_marker, rule rate_limited_loop_marker)

theorem marker_updated_only_on_success_witness:
  "LAST_REQUEST_TIME (snd (rate_limited_get sa_config
        (\<lambda>n q. (NetworkError :: string reply, 1)) ''NVDA'' (sa_boot 100))) = 0
   \<and> LAST_REQUEST_TIME (snd (rate_limited_get sa_config (\<lambda>n q. (Response 200 ''page'', 1)) ''NVDA'' (sa_boot 100))) = 101"
proof -
  let ?bad = "\<lambda>(n::nat) (q::string). (NetworkError :: string reply, 1::rat)"
  let ?good = "\<lambda>(n::nat) (q::string). (Response 200 ''page'', 1::rat)"
  obtain r1 w1 where e1: "rate_limited_get sa_config ?bad ''NVDA'' (sa_boot 100) = (r1, w1)"
    by (cases "rate_limited_get sa_config ?bad ''NVDA'' (sa_boot 100)")
  obtain r2 w2 where e2: "rate_limited_get sa_config ?good ''NVDA'' (sa_boot 100) = (r2, w2)"
    by (cases "rate_limited_get sa_config ?good ''NVDA'' (sa_boot 100)")
  have f1: "r1 = Raised RequestException"
    using e1 by (simp add: rate_limited_get_def rate_limited_loop.simps attempt_get_def
        http_get_def sleep_def sa_config_def sa_boot_def raise_for_status_def)
  have f2: "r2 = Returned (200, ''page'') \<and> clock w2 = 101"
    using e2 by (auto simp add: rate_limited_get_def rate_limited_loop.simps attempt_get_def
        http_get_def sleep_def sa_config_def sa_boot_def raise_for_status_def)
  have "LAST_REQUEST_TIME w1 = LAST_REQUEST_TIME (sa_boot 100 :: string sa_state)"
    using marker_updated_only_on_success[where cfg=sa_config and net="?bad" and q="''NVDA''"
        and w="sa_boot 100", THEN conjunct2] e1 f1 by simp
  moreover have "LAST_REQUEST_TIME w2 = clock w2"
    using marker_updated_only_on_success[where cfg=sa_config and net="?good" and q="''NVDA''"
        and w="sa_boot 100", THEN conjunct2] e2 f2 by simp
  ultimately show ?thesis using e1 e2 f2 by (simp add: sa_boot_def)
qed


section \<open>The listing crawl\<close>

lemma attempt_get_sent:
  "\<exists>a b. sent (events (snd (attempt_get cfg net q w))) = sent (events w) @ [(q, a, b)]"
proof -
  obtain r took where n: "net (served w) q = (r, took)" by (cases "net (served w) q")
  show ?thesis
    using n by (cases r; simp add: attempt_get_def http_get_def sleep_def Let_def)
qed

lemma attempt_get_requests:
  "map (\<lambda>x. f (fst x)) (sent (events (snd (attempt_get cfg net q w))))
     = map (\<lambda>x. f (fst x)) (sent (events w)) @ [f q]"
  using attempt_get_sent[of cfg net q w] by auto

lemma crawl_pages_fetched:
  assumes "page \<le> max_pages"
    and "fst (net (served w) (BASE_LIST_URL tk, if 1 < page then Some page else None)) = Response s arts"
    and "\<not> raise_for_status s" and "1 \<le> MAX_RETRIES cfg" and "arts \<noteq> []"
  shows "crawl_pages cfg S E td net tk max_pages page records w =
     (case scan_page S E td tk arts records of
        Inl e \<Rightarrow> (Raised e, snd (attempt_get cfg net (BASE_LIST_URL tk, if 1 < page then Some page else None) w))
      | Inr (had, oldest, records') \<Rightarrow>
          if oldest \<noteq> None \<and> before (the oldest) (Naive S) \<and> \<not> had
          then (Returned records', snd (attempt_get cfg net (BASE_LIST_URL tk, if 1 < page then Some page else None) w))
          else crawl_pages cfg S E td net tk max_pages (Suc page) records'
                 (sleep Polite 1 (snd (attempt_get cfg net (BASE_LIST_URL tk, if 1 < page then Some page else None) w))))"
proof -
  define q where "q = (BASE_LIST_URL tk, if 1 < page then Some page else None)"
  have r: "rate_limited_get cfg net q w = (Returned (s, arts), snd (attempt_get cfg net q w))"
    unfolding rate_limited_get_def
    using rate_limited_loop_success[where net=net and w=w and cfg=cfg and s=s and b=arts and a=1
        and q=q] assms(2,3,4)
    by (simp add: q_def)
  note u = crawl_pages.simps[of cfg S E td net tk max_pages page records w, unfolded Let_def,
      folded q_def, unfolded r]
  show ?thesis unfolding q_def[symmetric] using u assms(1,5) by (simp split: sum.splits)
qed

lemma dated_run:
  "map (\<lambda>x. page_no (fst x)) (sent (events (snd (list_earnings_call_transcripts_for_ticker sa_config
        (2024, 1, 1) (2025, 10, 31) example_to_datetime example_site ''NVDA'' 10 (sa_boot 0)))))
     = [1, 2]"
proof -
  let ?crawl = "crawl_pages sa_config (2024, 1, 1) (2025, 10, 31) example_to_datetime example_site ''NVDA'' 10"
  let ?get = "\<lambda>p w. snd (attempt_get sa_config example_site (BASE_LIST_URL ''NVDA'', p) w)"
  have cfg: "1 \<le> MAX_RETRIES sa_config" by (simp add: sa_config_def)
  have ne: "example_listing p \<noteq> []" for p by (simp add: example_listing_def)
  have ok: "\<not> raise_for_status 200" by (simp add: raise_for_status_def)
  have s1: "scan_page (2024, 1, 1) (2025, 10, 31) example_to_datetime ''NVDA'' (example_listing 1) records
      = Inr (True, Some (Naive (2024, 2, 21)),
             records @ [\<lparr>t_ticker = ''NVDA'', t_title = ''NVIDIA Q4 2024 Earnings Call Transcript'',
                         t_url = ''/article/3'', t_date = (2024, 2, 21)\<rparr>])" for records
    by (simp add: scan_page_def scan_article_def example_listing_def example_to_datetime_def Let_def)
  have s2: "scan_page (2024, 1, 1) (2025, 10, 31) example_to_datetime ''NVDA'' (example_listing 2) records
      = Inr (False, Some (Naive (2023, 8, 23)), records)" for records
    by (simp add: scan_page_def scan_article_def example_listing_def example_to_datetime_def Let_def)
  have p1: "?crawl 1 records w = ?crawl 2 (records @ [\<lparr>t_ticker = ''NVDA'', t_title = ''NVIDIA Q4 2024 Earnings Call Transcript'',
                         t_url = ''/article/3'', t_date = (2024, 2, 21)\<rparr>]) (sleep Polite 1 (?get None w))" for records w
  proof -
    have a: "(1::nat) \<le> 10" by simp
    have b: "fst (example_site (served w) (BASE_LIST_URL ''NVDA'', if 1 < (1::nat) then Some 1 else None))
               = Response 200 (example_listing 1)"
      by (simp add: example_site_def)
    show ?thesis
      unfolding crawl_pages_fetched[where page=1 and max_pages=10 and net=example_site
          and tk="''NVDA''" and s=200 and arts="example_listing 1" and cfg=sa_config and w=w,
          OF a b ok cfg ne] s1
      by (simp add: numeral_2_eq_2)
  qed
  have p2: "?crawl 2 records w = (Returned records, ?get (Some 2) w)" for records w
  proof -
    have a: "(2::nat) \<le> 10" by simp
    have b: "fst (example_site (served w) (BASE_LIST_URL ''NVDA'', if 1 < (2::nat) then Some 2 else None))
               = Response 200 (example_listing 2)"
      by (simp add: example_site_def)
    show ?thesis
      unfolding crawl_pages_fetched[where page=2 and max_pages=10 and net=example_site
          and tk="''NVDA''" and s=200 and arts="example_listing 2" and cfg=sa_config and w=w,
          OF a b ok cfg ne] s2
      by simp
  qed
  show ?thesis
    unfolding list_earnings_call_transcripts_for_ticker_def p1 p2
    by (simp add: sleep_sent attempt_get_requests sa_boot_def)
qed

lemma undated_run:
  "map (\<lambda>x. page_no (fst x)) (sent (events (snd (list_earnings_call_transcripts_for_ticker sa_config
        (2024, 1, 1) (2025, 10, 31) example_to_datetime undated_site ''NVDA'' 4 (sa_boot 0)))))
     = [1, 2, 3, 4]"
proof -
  let ?crawl = "crawl_pages sa_config (2024, 1, 1) (2025, 10, 31) example_to_datetime undated_site ''NVDA'' 4"
  let ?get = "\<lambda>p w. snd (attempt_get sa_config undated_site (BASE_LIST_URL ''NVDA'', p) w)"
  have cfg: "1 \<le> MAX_RETRIES sa_config" by (simp add: sa_config_def)
  have ne: "undated_listing p \<noteq> []" for p by (simp add: undated_listing_def)
  have s1: "scan_page (2024, 1, 1) (2025, 10, 31) example_to_datetime ''NVDA'' (undated_listing 1) records
      = Inr (True, Some (Naive (2024, 2, 21)),
             records @ [\<lparr>t_ticker = ''NVDA'', t_title = ''NVIDIA Q4 2024 Earnings Call Transcript'',
                         t_url = ''/article/3'', t_date = (2024, 2, 21)\<rparr>])" for records
    by (simp add: scan_page_def scan_article_def undated_listing_def example_to_datetime_def Let_def)
  have s2: "scan_page (2024, 1, 1) (2025, 10, 31) example_to_datetime ''NVDA'' (undated_listing p) records
      = Inr (False, Some NaT, records)" if "2 \<le> p" for p records
    using that
    by (simp add: scan_page_def scan_article_def undated_listing_def example_to_datetime_def Let_def)
  have ok: "\<not> raise_for_status 200" by (simp add: raise_for_status_def)
  have p1: "?crawl 1 records w = ?crawl 2 (records @ [\<lparr>t_ticker = ''NVDA'', t_title = ''NVIDIA Q4 2024 Earnings Call Transcript'',
                         t_url = ''/article/3'', t_date = (2024, 2, 21)\<rparr>]) (sleep Polite 1 (?get None w))" for records w
  proof -
    have a: "(1::nat) \<le> 4" by simp
    have b: "fst (undated_site (served w) (BASE_LIST_URL ''NVDA'', if 1 < (1::nat) then Some 1 else None))
               = Response 200 (undated_listing 1)"
      by (simp add: undated_site_def)
    show ?thesis
      unfolding crawl_pages_fetched[where page=1 and max_pages=4 and net=undated_site
          and tk="''NVDA''" and s=200 and arts="undated_listing 1" and cfg=sa_config and w=w,
          OF a b ok cfg ne] s1
      by (simp add: numeral_2_eq_2)
  qed
  have pn: "?crawl p records w = ?crawl (Suc p) records (sleep Polite 1 (?get (Some p) w))"
    if "2 \<le> p" "p \<le> 4" for p records w
  proof -
    have b: "fst (undated_site (served w) (BASE_LIST_URL ''NVDA'', if 1 < p then Some p else None))
               = Response 200 (undated_listing p)"
      using that(1) by (simp add: undated_site_def)
    show ?thesis
      unfolding crawl_pages_fetched[where page=p and max_pages=4 and net=undated_site
          and tk="''NVDA''" and s=200 and arts="undated_listing p" and cfg=sa_config and w=w,
          OF that(2) b ok cfg ne] s2[OF that(1)]
      using that(1) by simp
  qed
  have p5: "?crawl 5 records w = (Returned records, w)" for records w
    by (subst crawl_pages.simps) simp
  have p2: "?crawl 2 records w = ?crawl 3 records (sleep Polite 1 (?get (Some 2) w))" for records w
    using pn[of 2 records w] by simp
  have p3: "?crawl 3 records w = ?crawl 4 records (sleep Polite 1 (?get (Some 3) w))" for records w
    using pn[of 3 records w] by simp
  have p4: "?crawl 4 records w = ?crawl 5 records (sleep Polite 1 (?get (Some 4) w))" for records w
    using pn[of 4 records w] by simp
  show ?thesis
    unfolding list_earnings_call_transcripts_for_ticker_def p1 p2 p3 p4 p5
    by (simp add: sleep_sent attempt_get_requests sa_boot_def)
qed

text \<open>
  C5.  The source says of its test after the inner loop: ``If the oldest transcript on this
  page is before our start date and this page already has nothing in range, we can stop.''
  On a listing whose articles all carry a date the crawl does so: with a ceiling of 10 pages
  it asks for pages 1 and 2 only.  On a listing whose page 2 is stale, its one dated record
  being of 2023-08-23 and outside the window, but whose first article has no \<open>span\<close>, the
  date of that article is \<open>NaT\<close>, \<open>oldest_on_page\<close> stays \<open>NaT\<close>, the test fails, and the
  crawl asks for every page up to the ceiling.
\<close>

theorem crawl_goes_on_after_stale_page:
  "stale_page (2024, 1, 1) (2025, 10, 31) example_to_datetime (example_listing 2)
   \<and> map (\<lambda>x. page_no (fst x)) (sent (events (snd (list_earnings_call_transcripts_for_ticker sa_config
        (2024, 1, 1) (2025, 10, 31) example_to_datetime example_site ''NVDA'' 10 (sa_boot 0)))))
     = [1, 2]
   \<and> stale_page (2024, 1, 1) (2025, 10, 31) example_to_datetime (undated_listing 2)
   \<and> map (\<lambda>x. page_no (fst x)) (sent (events (snd (list_earnings_call_transcripts_for_ticker sa_config
        (2024, 1, 1) (2025, 10, 31) example_to_datetime undated_site ''NVDA'' 4 (sa_boot 0)))))
     = [1, 2, 3, 4]"
proof (intro conjI)
  show "stale_page (2024, 1, 1) (2025, 10, 31) example_to_datetime (example_listing 2)"
    by code_simp
  show "stale_page (2024, 1, 1) (2025, 10, 31) example_to_datetime (undated_listing 2)"
    by code_simp
  show "map (\<lambda>x. page_no (fst x)) (sent (events (snd (list_earnings_call_transcripts_for_ticker sa_config
        (2024, 1, 1) (2025, 10, 31) example_to_datetime example_site ''NVDA'' 10 (sa_boot 0)))))
     = [1, 2]"
    by (rule dated_run)
  show "map (\<lambda>x. page_no (fst x)) (sent (events (snd (list_earnings_call_transcripts_for_ticker sa_config
        (2024, 1, 1) (2025, 10, 31) example_to_datetime undated_site ''NVDA'' 4 (sa_boot 0)))))
     = [1, 2, 3, 4]"
    by (rule undated_run)
qed


section \<open>The tweet crawl\<close>







section \<open>Batch runs\<close>

lemma main_loop_facts:
  "case main_loop work syms all_ok fl st w of
     ((all_ok', fl', st'), w') \<Rightarrow>
        st' = st @ syms \<and>
        (all_ok' \<longleftrightarrow> all_ok \<and> fl' = fl) \<and>
        (\<exists>more. fl' = fl @ more \<and> set more \<subseteq> set syms)"
proof (induction syms arbitrary: all_ok fl st w)
  case Nil
  then show ?case by simp
next
  case (Cons symbol rest)
  obtain r w1 where h: "work symbol w = (r, w1)" by (cases "work symbol w")
  let ?w2 = "if rest \<noteq> [] then sleep Polite 12 w1 else w1"
  show ?case
  proof (cases r)
    case None
    then show ?thesis using h Cons.IH[where all_ok=all_ok and fl=fl and st="st @ [symbol]" and w="?w2"]
      by (auto split: prod.splits)
  next
    case (Some exc)
    then show ?thesis using h Cons.IH[where all_ok=False and fl="fl @ [symbol]" and st="st @ [symbol]" and w="?w2"]
      by (auto split: prod.splits)
  qed
qed

lemma batch_loop_counts:
  "case batch_loop net disk max_pages users (s, f) w of
     ((s', f'), w') \<Rightarrow> s' + f' = s + f + length users"
proof (induction users arbitrary: s f w)
  case Nil
  then show ?case by simp
next
  case (Cons user users)
  obtain ok w1 where h: "process_single_user net disk user max_pages w = (ok, w1)"
    by (cases "process_single_user net disk user max_pages w")
  show ?case
  proof (cases ok)
    case True
    then show ?thesis using h Cons.IH[where s="s + 1" and f=f and w=w1] by (auto split: prod.splits)
  next
    case False
    then show ?thesis using h Cons.IH[where s=s and f="f + 1" and w=w1] by (auto split: prod.splits)
  qed
qed

lemma main_loop_bad:
  assumes "\<forall>s \<in> set syms. \<forall>u. (fst (work s u) \<noteq> None) = bad s"
  shows "fst (main_loop work syms all_ok fl st w)
           = (all_ok \<and> filter bad syms = [], fl @ filter bad syms, st @ syms)"
  using assms
proof (induction syms arbitrary: all_ok fl st w)
  case Nil
  then show ?case by simp
next
  case (Cons symbol rest)
  obtain r w1 where h: "work symbol w = (r, w1)" by (cases "work symbol w")
  let ?w2 = "if rest \<noteq> [] then sleep Polite 12 w1 else w1"
  from Cons.prems have b: "(r \<noteq> None) = bad symbol" using h by (metis fst_conv list.set_intros(1))
  from Cons.prems have rest: "\<forall>s \<in> set rest. \<forall>u. (fst (work s u) \<noteq> None) = bad s" by simp
  show ?case
  proof (cases r)
    case None
    with b have nb: "\<not> bad symbol" by simp
    show ?thesis
      using Cons.IH[OF rest, where all_ok=all_ok and fl=fl and st="st @ [symbol]" and w="?w2"] h None nb
      by simp
  next
    case (Some exc)
    with b have nb: "bad symbol" by simp
    show ?thesis
      using Cons.IH[OF rest, where all_ok=False and fl="fl @ [symbol]" and st="st @ [symbol]" and w="?w2"] h Some nb
      by simp
  qed
qed

lemma batch_loop_good:
  assumes "\<forall>x \<in> set users. \<forall>u. fst (process_single_user net disk x max_pages u) = good x"
  shows "fst (batch_loop net disk max_pages users (s, f) w)
           = (s + length (filter good users), f + length (filter (\<lambda>x. \<not> good x) users))"
  using assms
proof (induction users arbitrary: s f w)
  case Nil
  then show ?case by simp
next
  case (Cons user users)
  obtain ok w1 where h: "process_single_user net disk user max_pages w = (ok, w1)"
    by (cases "process_single_user net disk user max_pages w")
  from Cons.prems h have g: "ok = good user" by (metis fst_conv list.set_intros(1))
  from Cons.prems have rest: "\<forall>x \<in> set users. \<forall>u. fst (process_single_user net disk x max_pages u) = good x"
    by simp
  show ?case
  proof (cases ok)
    case True
    then show ?thesis using h g Cons.IH[OF rest, where s="s + 1" and f=f and w=w1] by simp
  next
    case False
    then show ?thesis using h g Cons.IH[OF rest, where s=s and f="f + 1" and w=w1] by simp
  qed
qed

lemma x_api_users:
  "\<forall>x \<in> set [''bob'', ''alice'']. \<forall>u. fst (process_single_user x_api (\<lambda>u. True) x 20 u) = (x = ''alice'')"
  by (simp add: process_single_user_def
        get_user_rest_id_def fetch_json_def http_get_def x_api_def subscript_def
        fetch_user_tweets_def fetch_pages.simps get_user_tweets_page_def save_tweets_def
        truthy_opt_def dict_get_def Let_def)

text \<open>
  C9, as amended.  In both batch loops a failure of one entity does not stop the batch.
  \<open>main\<close> of the earnings script starts the work of every symbol of \<open>SYMBOLS\<close>, in order,
  whatever fails.  When the work raises for the symbols \<open>bad\<close> and for no other, the
  symbols for which ``Failed for ...'' is printed are the bad symbols of \<open>SYMBOLS\<close>, in
  order, and the exit code is 0 when there is none and 1 otherwise; no count is printed.
  \<open>batch_fetch_tweets_sequential\<close> processes every user.  When \<open>process_single_user\<close>
  returns true for the users \<open>good\<close> and false for the others, the success count it logs at
  the end is the number of good users of the list and the failure count the number of the
  others; the two add up to the number of users.  It returns nothing, so no exit code
  follows from them.
\<close>

theorem batch_continues_after_failure:
  "(case main work SYMBOLS w of
      (r, w') \<Rightarrow>
         started r = SYMBOLS \<and>
         (exit_code r = 0 \<longleftrightarrow> failed r = []) \<and>
         (exit_code r = 0 \<or> exit_code r = 1) \<and>
         set (failed r) \<subseteq> set SYMBOLS \<and>
         ((\<forall>s \<in> set SYMBOLS. \<forall>u. (fst (work s u) \<noteq> None) = bad s) \<longrightarrow>
            failed r = filter bad SYMBOLS \<and>
            exit_code r = (if \<exists>s \<in> set SYMBOLS. bad s then 1 else 0)))
   \<and> (case batch_fetch_tweets_sequential net disk user_list max_pages v of
      ((success_count, fail_count), v') \<Rightarrow>
         success_count + fail_count = length user_list \<and>
         ((\<forall>x \<in> set user_list. \<forall>u. fst (process_single_user net disk x max_pages u) = good x) \<longrightarrow>
            success_count = length (filter good user_list) \<and>
            fail_count = length (filter (\<lambda>x. \<not> good x) user_list)))"
proof (rule conjI)
  obtain r w' where m: "main work SYMBOLS w = (r, w')" by (cases "main work SYMBOLS w")
  have "case main work SYMBOLS w of
      (r, w') \<Rightarrow>
         started r = SYMBOLS \<and>
         (exit_code r = 0 \<longleftrightarrow> failed r = []) \<and>
         (exit_code r = 0 \<or> exit_code r = 1) \<and>
         set (failed r) \<subseteq> set SYMBOLS"
    using main_loop_facts[where work=work and syms=SYMBOLS and all_ok=True and fl="[]" and st="[]" and w=w]
    by (auto simp: main_def split: prod.splits)
  then have old: "started r = SYMBOLS \<and> (exit_code r = 0 \<longleftrightarrow> failed r = []) \<and>
         (exit_code r = 0 \<or> exit_code r = 1) \<and> set (failed r) \<subseteq> set SYMBOLS"
    unfolding m by auto
  have new: "failed r = filter bad SYMBOLS \<and> exit_code r = (if \<exists>s \<in> set SYMBOLS. bad s then 1 else 0)"
    if h: "\<forall>s \<in> set SYMBOLS. \<forall>u. (fst (work s u) \<noteq> None) = bad s"
  proof -
    from main_loop_bad[OF h, where all_ok=True and fl="[]" and st="[]" and w=w] m
    have "failed r = filter bad SYMBOLS" "exit_code r = (if filter bad SYMBOLS = [] then 0 else 1)"
      by (auto simp: main_def split: prod.splits)
    then show ?thesis by (auto simp: filter_empty_conv)
  qed
  show "case main work SYMBOLS w of
      (r, w') \<Rightarrow>
         started r = SYMBOLS \<and>
         (exit_code r = 0 \<longleftrightarrow> failed r = []) \<and>
         (exit_code r = 0 \<or> exit_code r = 1) \<and>
         set (failed r) \<subseteq> set SYMBOLS \<and>
         ((\<forall>s \<in> set SYMBOLS. \<forall>u. (fst (work s u) \<noteq> None) = bad s) \<longrightarrow>
            failed r = filter bad SYMBOLS \<and>
            exit_code r = (if \<exists>s \<in> set SYMBOLS. bad s then 1 else 0))"
    unfolding m prod.case using old new by blast
next
  obtain sc fc v' where b: "batch_fetch_tweets_sequential net disk user_list max_pages v = ((sc, fc), v')"
    by (cases "batch_fetch_tweets_sequential net disk user_list max_pages v") auto
  have old: "sc + fc = length user_list"
    using batch_loop_counts[where net=net and disk=disk and max_pages=max_pages and users=user_list and s=0 and f=0 and w=v] b
    by (simp add: batch_fetch_tweets_sequential_def)
  have new: "sc = length (filter good user_list) \<and> fc = length (filter (\<lambda>x. \<not> good x) user_list)"
    if h: "\<forall>x \<in> set user_list. \<forall>u. fst (process_single_user net disk x max_pages u) = good x"
    using batch_loop_good[OF h, where s=0 and f=0 and w=v] b
    by (simp add: batch_fetch_tweets_sequential_def)
  show "case batch_fetch_tweets_sequential net disk user_list max_pages v of
      ((success_count, fail_count), v') \<Rightarrow>
         success_count + fail_count = length user_list \<and>
         ((\<forall>x \<in> set user_list. \<forall>u. fst (process_single_user net disk x max_pages u) = good x) \<longrightarrow>
            success_count = length (filter good user_list) \<and>
            fail_count = length (filter (\<lambda>x. \<not> good x) user_list))"
    unfolding b prod.case using old new by blast
qed

theorem batch_continues_after_failure_witness:
  "started (fst (main ko_fails [''KO'', ''NVDA''] (boot 0))) = [''KO'', ''NVDA'']
   \<and> failed (fst (main ko_fails [''KO'', ''NVDA''] (boot 0))) = [''KO'']
   \<and> exit_code (fst (main ko_fails [''KO'', ''NVDA''] (boot 0))) = 1
   \<and> fst (batch_fetch_tweets_sequential x_api (\<lambda>u. True) [''bob'', ''alice''] 20 (boot 0)) = (1, 1)"
proof -
  note T = batch_continues_after_failure[where work=ko_fails and SYMBOLS="[''KO'', ''NVDA'']"
      and w="boot 0" and net=x_api and disk="\<lambda>u. True" and user_list="[''bob'', ''alice'']"
      and max_pages=20 and v="boot 0" and bad="\<lambda>s. s = ''KO''" and good="\<lambda>x. x = ''alice''"]
  obtain r w' where m: "main ko_fails [''KO'', ''NVDA''] (boot 0) = (r, w')"
    by (cases "main ko_fails [''KO'', ''NVDA''] (boot 0)")
  obtain s f v' where b: "batch_fetch_tweets_sequential x_api (\<lambda>u. True) [''bob'', ''alice''] 20 (boot 0)
      = ((s, f), v')"
    by (cases "batch_fetch_tweets_sequential x_api (\<lambda>u. True) [''bob'', ''alice''] 20 (boot 0)") auto
  have hw: "\<forall>s \<in> set [''KO'', ''NVDA'']. \<forall>u. (fst (ko_fails s u) \<noteq> None) = (s = ''KO'')"
    by (simp add: ko_fails_def)
  from T[THEN conjunct1] m hw
  have a: "started r = [''KO'', ''NVDA'']" "failed r = [''KO'']" "exit_code r = 1"
    by simp_all
  from T[THEN conjunct2] b x_api_users have c: "s = 1" "f = 1"
    by simp_all
  show ?thesis using a c m b by simp
qed

text \<open>
  The claim as it was stated fails for the earnings script: one failed symbol and two
  failed symbols end in the same exit code 1, the only thing surfaced at the end.
\<close>

theorem batch_continues_after_failure_counterexample:
  "exit_code (fst (main ko_fails [''KO'', ''NVDA''] (boot 0))) = 1
   \<and> exit_code (fst (main both_fail [''KO'', ''NVDA''] (boot 0))) = 1
   \<and> length (failed (fst (main ko_fails [''KO'', ''NVDA''] (boot 0)))) = 1
   \<and> length (failed (fst (main both_fail [''KO'', ''NVDA''] (boot 0)))) = 2"
  by (simp add: main_def ko_fails_def both_fail_def)


section \<open>The date window\<close>

lemma map_insort_key: "map f (insort_key f x xs) = insort (f x) (map f xs)"
  by (induction xs) simp_all

lemma map_sort_key: "map f (sort_key f xs) = sort (map f xs)"
  by (induction xs) (simp_all add: map_insort_key)





lemma row_of_date: "o_date (row_of tf symbol x) = fst x"
  by (simp add: row_of_def)


lemma map_of_dict_set: "map_of (dict_set k v kvs) = (map_of kvs)(k \<mapsto> v)"
  by (induction kvs) (auto simp: fun_eq_iff)

lemma keys_dict_set:
  "map fst (dict_set k v kvs) = (if k \<in> fst ` set kvs then map fst kvs else map fst kvs @ [k])"
  by (induction kvs) (auto simp: rev_image_eqI)

lemma distinct_dict_set: "distinct (map fst kvs) \<Longrightarrow> distinct (map fst (dict_set k v kvs))"
  by (simp add: keys_dict_set)

lemma entries_Cons:
  "entries py S E (j # js) =
     (case fng_entry py S E j of None \<Rightarrow> entries py S E js | Some c \<Rightarrow> c # entries py S E js)"
  unfolding entries_def by (simp add: map_filter_simps split: option.splits)

lemma entries_Nil [simp]: "entries py S E [] = []"
  unfolding entries_def by (simp add: map_filter_simps)

lemma normalize_loop_step:
  assumes "normalize_loop py S E (j # js) bd = Inr bd'"
  shows "normalize_loop py S E js
           (case fng_entry py S E j of None \<Rightarrow> bd | Some c \<Rightarrow> absorb py bd c) = Inr bd'"
proof (cases j)
  case (JObj rec)
  note a = assms[unfolded JObj]
  show ?thesis
  proof (cases "dict_get rec ''timestamp''")
    case None
    then show ?thesis using a by (simp add: JObj fng_entry_def)
  next
    case (Some raw)
    show ?thesis
    proof (cases "py_int py raw")
      case None
      then show ?thesis using a Some by (simp add: JObj fng_entry_def)
    next
      case ts: (Some ts)
      show ?thesis
      proof (cases "py_utc_date py ts")
        case (Inl e)
        then show ?thesis using a Some ts by simp
      next
        case (Inr day)
        show ?thesis
        proof (cases "S \<le> day \<and> day \<le> E")
          case False
          then show ?thesis using a Some ts Inr by (auto simp: JObj fng_entry_def not_le)
        next
          case True
          then have w: "\<not> (day < S \<or> E < day)" by auto
          show ?thesis
          proof (cases "normalized py rec ts day")
            case (Inl e)
            then show ?thesis using a Some ts Inr w by simp
          next
            case row: (Inr row)
            have f: "fng_entry py S E (JObj rec) = Some (ts, row)"
              using Some ts Inr True row by (simp add: fng_entry_def)
            have l: "normalize_loop py S E (JObj rec # js) bd
                       = normalize_loop py S E js (absorb py bd (ts, row))"
              using Some ts Inr w row by (simp add: absorb_def Let_def)
            show ?thesis using a unfolding JObj f l by simp
          qed
        qed
      qed
    qed
  qed
qed (use assms in simp_all)

lemma normalize_loop_foldl:
  "normalize_loop py S E recs bd = Inr bd' \<Longrightarrow> bd' = foldl (absorb py) bd (entries py S E recs)"
proof (induction recs arbitrary: bd)
  case Nil
  then show ?case by simp
next
  case (Cons j js)
  from Cons.IH[OF normalize_loop_step[OF Cons.prems]] show ?case
    by (simp add: entries_Cons split: option.splits)
qed

lemma map_of_absorb:
  "map_of (absorb py bd c) d =
     (if py_utc_date py (fst c) = Inr d then keep (map_of bd d) c else map_of bd d)"
  by (auto simp: absorb_def keep_def Let_def map_of_dict_set split: sum.splits)

lemma distinct_absorb: "distinct (map fst bd) \<Longrightarrow> distinct (map fst (absorb py bd c))"
  by (simp add: absorb_def Let_def distinct_dict_set split: sum.splits)

lemma map_of_foldl_absorb:
  "map_of (foldl (absorb py) bd cs) d = foldl keep (map_of bd d) (on_day py d cs)"
  by (induction cs arbitrary: bd) (simp_all add: on_day_def map_of_absorb)

lemma distinct_foldl_absorb:
  "distinct (map fst bd) \<Longrightarrow> distinct (map fst (foldl (absorb py) bd cs))"
  by (induction cs arbitrary: bd) (simp_all add: distinct_absorb)

lemma latest_snoc: "latest (cs @ [c]) = keep (latest cs) c"
proof (cases "cs = []")
  case True
  then show ?thesis by (simp add: latest_def keep_def)
next
  case False
  define m where "m = Max (fst ` set cs)"
  have fin: "finite (fst ` set cs)" and ne: "fst ` set cs \<noteq> {}" using False by auto
  have M: "Max (fst ` set (cs @ [c])) = max (fst c) m"
    unfolding m_def using fin ne by simp
  have "m \<in> fst ` set cs" unfolding m_def using Max_in[OF fin ne] .
  then obtain x where "x \<in> set cs" "fst x = m" by (metis imageE)
  then have "filter (\<lambda>x. fst x = m) cs \<noteq> []" unfolding filter_empty_conv by blast
  from last_in_set[OF this] have lm: "fst (last (filter (\<lambda>x. fst x = m) cs)) = m" by simp
  have L: "latest cs = Some (last (filter (\<lambda>x. fst x = m) cs))"
    using False by (simp add: latest_def m_def)
  have A: "latest (cs @ [c]) = Some (last (filter (\<lambda>x. fst x = max (fst c) m) (cs @ [c])))"
    unfolding latest_def M by simp
  show ?thesis
  proof (cases "m \<le> fst c")
    case True
    then show ?thesis unfolding A L keep_def using lm by (simp add: max_def)
  next
    case F: False
    then show ?thesis unfolding A L keep_def using lm by (simp add: max_def)
  qed
qed

lemma foldl_keep_latest: "foldl keep None cs = latest cs"
proof (induction cs rule: rev_induct)
  case Nil
  then show ?case by (simp add: latest_def)
next
  case (snoc c cs)
  then show ?case by (simp add: latest_snoc)
qed

lemma latest_in: "latest cs = Some c \<Longrightarrow> c \<in> set cs"
proof -
  assume a: "latest cs = Some c"
  then have ne: "cs \<noteq> []" by (auto simp: latest_def)
  let ?m = "Max (fst ` set cs)"
  have "?m \<in> fst ` set cs" using ne by (intro Max_in) auto
  then obtain x where "x \<in> set cs" "fst x = ?m" by (metis imageE)
  then have "filter (\<lambda>x. fst x = ?m) cs \<noteq> []" unfolding filter_empty_conv by blast
  from last_in_set[OF this] a ne show ?thesis by (auto simp: latest_def)
qed


lemma fng_entry_Some:
  assumes "fng_entry py S E j = Some (ts, r)"
  shows "\<exists>d. py_utc_date py ts = Inr d \<and> f_timestamp r = ts \<and> f_date r = py_isoformat py d \<and>
         S \<le> d \<and> d \<le> E \<and> fng_day py j = Some d"
proof (cases j)
  case (JObj rec)
  from assms obtain raw where raw: "dict_get rec ''timestamp'' = Some raw"
    unfolding JObj fng_entry_def by (cases "dict_get rec ''timestamp''") simp_all
  from assms raw obtain t where t: "py_int py raw = Some t"
    unfolding JObj fng_entry_def by (cases "py_int py raw") simp_all
  from assms raw t obtain d where d: "py_utc_date py t = Inr d"
    unfolding JObj fng_entry_def by (cases "py_utc_date py t") simp_all
  from assms raw t d have w: "S \<le> d \<and> d \<le> E"
    unfolding JObj fng_entry_def by (simp split: if_splits)
  from assms raw t d w obtain row where row: "normalized py rec t d = Inr row"
    unfolding JObj fng_entry_def by (cases "normalized py rec t d") simp_all
  from assms raw t d w row have e: "t = ts" "row = r"
    unfolding JObj fng_entry_def by simp_all
  from row have "f_timestamp row = t" "f_date row = py_isoformat py d"
    unfolding normalized_def by (auto split: sum.splits)
  moreover have "fng_day py j = Some d" using raw t d by (simp add: JObj fng_day_def)
  ultimately show ?thesis using d w e by auto
qed (use assms in \<open>simp_all add: fng_entry_def\<close>)

lemma entries_set:
  "set (entries py S E records) = {c. \<exists>j \<in> set records. fng_entry py S E j = Some c}"
  unfolding entries_def by (force simp: map_filter_def)

lemma entries_facts:
  assumes "(ts, r) \<in> set (entries py S E records)"
  obtains d where "py_utc_date py ts = Inr d" "f_timestamp r = ts" "f_date r = py_isoformat py d"
    "S \<le> d" "d \<le> E" "d \<in> set (List.map_filter (fng_day py) records)"
proof -
  from assms obtain j where j: "j \<in> set records" "fng_entry py S E j = Some (ts, r)"
    unfolding entries_set by blast
  from fng_entry_Some[OF j(2)] obtain d where d: "py_utc_date py ts = Inr d" "f_timestamp r = ts"
    "f_date r = py_isoformat py d" "S \<le> d" "d \<le> E" "fng_day py j = Some d" by blast
  from d(6) j(1) have "d \<in> set (List.map_filter (fng_day py) records)"
    by (force simp: map_filter_def)
  with d that show thesis by blast
qed

lemma distinct_map_sort_key: "distinct (map g (sort_key f xs)) = distinct (map g xs)"
  by (simp add: distinct_map)

lemma by_date_of_distinct: "distinct (map fst (by_date_of py S E records))"
  unfolding by_date_of_def by (rule distinct_foldl_absorb) simp

lemma by_date_of_latest:
  "map_of (by_date_of py S E records) d = latest (on_day py d (entries py S E records))"
  unfolding by_date_of_def by (simp add: map_of_foldl_absorb foldl_keep_latest)

lemma on_day_set: "c \<in> set (on_day py d cs) \<longleftrightarrow> c \<in> set cs \<and> py_utc_date py (fst c) = Inr d"
  by (auto simp: on_day_def)

lemma by_date_of_member:
  "(d, ts, r) \<in> set (by_date_of py S E records)
     \<longleftrightarrow> latest (on_day py d (entries py S E records)) = Some (ts, r)"
proof -
  have "map_of (by_date_of py S E records) d = Some (ts, r)
          \<longleftrightarrow> (d, ts, r) \<in> set (by_date_of py S E records)"
    by (rule map_of_eq_Some_iff[OF by_date_of_distinct])
  then show ?thesis unfolding by_date_of_latest by simp
qed

lemma by_date_of_key:
  assumes "x \<in> set (by_date_of py S E records)"
  shows "py_utc_date py (fst (snd x)) = Inr (fst x)" "f_timestamp (snd (snd x)) = fst (snd x)"
    "f_date (snd (snd x)) = py_isoformat py (fst x)"
proof -
  obtain d ts r where x: "x = (d, ts, r)" by (cases x)
  with assms have "latest (on_day py d (entries py S E records)) = Some (ts, r)"
    by (simp add: by_date_of_member)
  from latest_in[OF this] have i: "(ts, r) \<in> set (entries py S E records)" "py_utc_date py ts = Inr d"
    by (simp_all add: on_day_set)
  from entries_facts[OF i(1)] i(2) x
  show "py_utc_date py (fst (snd x)) = Inr (fst x)" "f_timestamp (snd (snd x)) = fst (snd x)"
    "f_date (snd (snd x)) = py_isoformat py (fst x)"
    by auto
qed

lemma with_keys_id:
  "\<forall>x \<in> set bd. py_utc_date py (fst (snd x)) = Inr (fst x) \<Longrightarrow> with_keys py (map snd bd) = Inr bd"
  by (induction bd) auto

lemma filter_and_normalize_by_date:
  assumes "filter_and_normalize_records py records S E = Inr rows"
  shows "rows = sort_key f_date (map (\<lambda>x. snd (snd x)) (sort_key fst (by_date_of py S E records)))"
proof -
  from assms obtain bd where bd: "normalize_loop py S E records [] = Inr bd"
    by (auto simp: filter_and_normalize_records_def split: sum.splits)
  from normalize_loop_foldl[OF bd] have e: "bd = by_date_of py S E records"
    by (simp add: by_date_of_def)
  have "with_keys py (map snd bd) = Inr bd"
    unfolding e by (rule with_keys_id) (simp add: by_date_of_key(1))
  with assms bd e show ?thesis
    by (simp add: filter_and_normalize_records_def)
qed




lemma filter_and_normalize_set:
  assumes "filter_and_normalize_records py records S E = Inr rows"
  shows "r \<in> set rows \<longleftrightarrow> (\<exists>d ts. latest (on_day py d (entries py S E records)) = Some (ts, r))"
proof -
  have "r \<in> set rows \<longleftrightarrow> (\<exists>d ts. (d, ts, r) \<in> set (by_date_of py S E records))"
    unfolding filter_and_normalize_by_date[OF assms] by force
  then show ?thesis unfolding by_date_of_member .
qed

lemma row_day_by_date:
  "map (\<lambda>x. row_day py (snd (snd x))) (by_date_of py S E records)
     = map (\<lambda>x. Inr (fst x)) (by_date_of py S E records)"
  by (rule map_cong[OF refl]) (simp add: row_day_def by_date_of_key)

lemma filter_and_normalize_distinct:
  assumes "filter_and_normalize_records py records S E = Inr rows"
  shows "distinct (map (row_day py) rows)"
proof -
  let ?bd = "by_date_of py S E records"
  have "distinct (map (row_day py) rows) = distinct (map (\<lambda>x. row_day py (snd (snd x))) (sort_key fst ?bd))"
    unfolding filter_and_normalize_by_date[OF assms] by (simp only: distinct_map_sort_key map_map o_def)
  also have "\<dots> = distinct (map (\<lambda>x. row_day py (snd (snd x))) ?bd)"
    by (rule distinct_map_sort_key)
  also have "\<dots> = distinct (map (\<lambda>x. (Inr (fst x) :: exn + _)) ?bd)"
    by (simp only: row_day_by_date)
  also have "\<dots> = distinct (map (Inr :: _ \<Rightarrow> exn + _) (map fst ?bd))"
    by (simp add: o_def)
  also have "\<dots>" using by_date_of_distinct[of py S E records]
    by (subst distinct_map) (simp add: inj_on_def)
  finally show ?thesis .
qed




lemma sorted_map_on:
  "sorted xs \<Longrightarrow> (\<forall>a \<in> set xs. \<forall>b \<in> set xs. a \<le> b \<longrightarrow> f a \<le> f b) \<Longrightarrow> sorted (map f xs)"
  by (induction xs) auto


lemma sorted_rows_by_date:
  assumes "rows = sort_key o_date (map (row_of tf symbol) (filter (\<lambda>x. in_window S E fromiso (fst x)) series))"
    and "\<forall>s t. in_window S E fromiso s \<and> in_window S E fromiso t \<and> s \<in> fst ` set series
            \<and> t \<in> fst ` set series \<and> s \<le> t \<longrightarrow> the (fromiso s) \<le> the (fromiso t)"
  shows "sorted (map (\<lambda>r. the (fromiso (o_date r))) rows)"
proof -
  have d: "map o_date rows = sort (map fst (filter (\<lambda>x. in_window S E fromiso (fst x)) series))"
    unfolding assms(1) map_sort_key by (simp add: o_def row_of_date)
  have "sorted (map (\<lambda>s. the (fromiso s)) (map o_date rows))"
  proof (rule sorted_map_on, goal_cases)
    case 1
    show ?case unfolding d by simp
  next
    case 2
    show ?case
    proof (intro ballI impI)
      fix a b assume a: "a \<in> set (map o_date rows)" and b: "b \<in> set (map o_date rows)" and le: "a \<le> b"
      from a have a': "in_window S E fromiso a" "a \<in> fst ` set series" unfolding d by auto
      from b have b': "in_window S E fromiso b" "b \<in> fst ` set series" unfolding d by auto
      from assms(2) a' b' le show "the (fromiso a) \<le> the (fromiso b)" by blast
    qed
  qed
  then show ?thesis by (simp add: o_def)
qed
















section \<open>One row for each day\<close>

lemma tie_fng_Inr:
  "\<not> isl (filter_and_normalize_records example_py tie_fng (2024, 1, 1) (2024, 1, 3))"
  by code_simp

lemma tie_fng_rows:
  "map (\<lambda>r. (f_date r, f_timestamp r, f_value r))
     (projr (filter_and_normalize_records example_py tie_fng (2024, 1, 1) (2024, 1, 3)))
     = [(''2024-01-01'', 1704070800, Some 55)]"
  by code_simp

text \<open>
  C8, as amended.  The rows \<open>filter_and_normalize_records\<close> returns have pairwise different
  days, and a row is in the output exactly when it is, for some day, the one with the
  greatest timestamp among the entries of that day, the last of them in input order when
  several share the greatest timestamp.
\<close>

theorem one_row_per_day_latest_timestamp:
  assumes "filter_and_normalize_records py records S E = Inr rows"
  shows "distinct (map (row_day py) rows) \<and>
         (\<forall>r. r \<in> set rows \<longleftrightarrow>
                (\<exists>d ts. latest (on_day py d (entries py S E records)) = Some (ts, r)))"
  using filter_and_normalize_distinct[OF assms] filter_and_normalize_set[OF assms] by blast

theorem one_row_per_day_latest_timestamp_witness:
  "\<exists>rows. filter_and_normalize_records example_py tie_fng (2024, 1, 1) (2024, 1, 3) = Inr rows
         \<and> map (\<lambda>r. (f_date r, f_timestamp r, f_value r)) rows = [(''2024-01-01'', 1704070800, Some 55)]
         \<and> distinct (map (row_day example_py) rows)"
proof -
  let ?X = "filter_and_normalize_records example_py tie_fng (2024, 1, 1) (2024, 1, 3)"
  have X: "?X = Inr (projr ?X)" using tie_fng_Inr by (cases ?X) auto
  from one_row_per_day_latest_timestamp[where py=example_py and records=tie_fng
      and S="(2024, 1, 1)" and E="(2024, 1, 3)" and rows="projr ?X", OF X]
  have d: "distinct (map (row_day example_py) (projr ?X))" by (rule conjunct1)
  show ?thesis
    by (intro exI[of _ "projr ?X"] conjI) (rule X tie_fng_rows d)+
qed

text \<open>
  The claim as it was stated fails: of two records of the same day, the first of which has
  the later timestamp, the row of the first one is returned, and the record read last does
  not replace it.
\<close>

theorem one_row_per_day_latest_timestamp_counterexample:
  "filter_and_normalize_records example_py [JObj later_reading, JObj earlier_reading]
       (2024, 1, 1) (2024, 1, 3)
     = Inr [projr (normalized example_py later_reading 1704070800 (2024, 1, 1))]
   \<and> map_sum id f_value (normalized example_py later_reading 1704070800 (2024, 1, 1)) = Inr (Some 50)
   \<and> map_sum id f_value (normalized example_py earlier_reading 1704067200 (2024, 1, 1)) = Inr (Some 40)
   \<and> py_utc_date example_py 1704067200 = py_utc_date example_py 1704070800"
  by code_simp


section \<open>Fields that do not parse\<close>

text \<open>
  C7.  The loop of \<open>fetch_indicator\<close> guards \<open>float(value_str)\<close>
  (\<open>except (TypeError, ValueError): continue\<close>): of three items of which the second has
  the value ``.'', the rows of the other two are returned.  The date of the same item is
  parsed by \<open>_within_range\<close> outside that guard: of three items of which the second has the
  date 01/02/2024, no row is returned and the fetch raises \<open>ValueError\<close>.
  \<open>fetch_stock_daily\<close> guards nothing: one closing price that is not a number makes the
  fetch of the whole series raise \<open>ValueError\<close>.
  The loop of \<open>filter_and_normalize_records\<close> guards \<open>int(str(ts_raw))\<close>: a record whose
  timestamp is not a number is left out and the rows of the others are returned; a record
  whose timestamp is a number that \<open>utcfromtimestamp\<close> rejects makes the call raise
  \<open>ValueError\<close>.
\<close>

theorem parse_error_aborts_fetch:
  "fst (fetch_indicator (2024, 1, 1) (2024, 1, 3) iso_date example_float bad_value_macro
          ''FEDERAL_FUNDS_RATE'' ''FEDFUNDS'' ''daily'' (boot 0))
     = Returned [\<lparr>m_date = ''2024-01-01'', m_indicator = ''FEDFUNDS'', m_value = ''5.33''\<rparr>,
                 \<lparr>m_date = ''2024-01-03'', m_indicator = ''FEDFUNDS'', m_value = ''5.31''\<rparr>]
   \<and> fst (fetch_indicator (2024, 1, 1) (2024, 1, 3) iso_date example_float bad_date_macro
            ''FEDERAL_FUNDS_RATE'' ''FEDFUNDS'' ''daily'' (boot 0))
     = Raised ValueError
   \<and> fst (fetch_stock_daily (2024, 1, 1) (2024, 1, 3) iso_date example_float bad_number_av ''IBM'' (boot 0))
     = Raised ValueError
   \<and> map_sum id (map f_date)
        (filter_and_normalize_records example_py unstamped_fng (2024, 1, 1) (2024, 1, 3))
     = Inr [''2024-01-01'', ''2024-01-02'']
   \<and> filter_and_normalize_records example_py far_future_fng (2024, 1, 1) (2024, 1, 3)
     = Inl ValueError"
  by code_simp

end
